theory Spec2Isabelle
  imports Main "HOL-Library.Word"
begin

unbundle bit_operations_syntax

section \<open>Constants and enums\<close>

text \<open>
  \<^verbatim>\<open>static const int MSP_MAX_PAYLOAD_SIZE = 256\<close>, \<^verbatim>\<open>FRAME_BUFFER_SIZE = 1024\<close>,
  \<^verbatim>\<open>CHANNEL_COUNT = 18\<close>. All three are positive and are only used as array sizes and
  in comparisons with unsigned values, so they are natural numbers here.
\<close>

definition MSP_MAX_PAYLOAD_SIZE :: nat where
  "MSP_MAX_PAYLOAD_SIZE = 256"

definition FRAME_BUFFER_SIZE :: nat where
  "FRAME_BUFFER_SIZE = 1024"

definition CHANNEL_COUNT :: nat where
  "CHANNEL_COUNT = 18"

text \<open>
  \<^verbatim>\<open>enum class MspCommand : uint8_t\<close>. The underlying type is fixed, so every byte is
  a value of the enum (a caller may \<^verbatim>\<open>static_cast\<close> any id into it and use it as a key
  of the executor table); the five enumerators are named constants.
\<close>

type_synonym MspCommand = "8 word"

definition STATUS :: MspCommand where
  "STATUS = 101"

definition ATTITUDE :: MspCommand where
  "ATTITUDE = 108"

definition RC :: MspCommand where
  "RC = 105"

definition FC_VARIANT :: MspCommand where
  "FC_VARIANT = 102"

definition UNKNOWN :: MspCommand where
  "UNKNOWN = 255"

section \<open>MSP message representation\<close>

datatype Direction = OUTBOUND | INBOUND

text \<open>
  \<^verbatim>\<open>struct MspMessage\<close>. The field \<^verbatim>\<open>size\<close> is called \<open>msg_size\<close> (\<open>size\<close> is a
  constant of HOL). \<^verbatim>\<open>payload\<close> is the array \<^verbatim>\<open>uint8_t payload[MSP_MAX_PAYLOAD_SIZE]\<close>,
  a list that has \<open>MSP_MAX_PAYLOAD_SIZE\<close> entries in every message the parser builds.
\<close>

record MspMessage =
  direction :: Direction
  cmd :: MspCommand
  msg_size :: "8 word"
  checksum :: "8 word"
  payload :: "8 word list"

section \<open>MSP message parser\<close>

datatype ParserState = IDLE | VERSION | DIRECTION | SIZE | CMD | PAYLOAD | CHECKSUM

text \<open>
  The data members of \<^verbatim>\<open>class MspMessageParser\<close>. The member \<^verbatim>\<open>m_handler\<close> is a
  reference to an object the parser does not own: the functions below take the handler's
  \<^verbatim>\<open>onMspMessage\<close> as an argument and thread the handler's state \<open>'h\<close> beside the parser.
\<close>

record MspMessageParser =
  m_state :: ParserState
  m_msg :: MspMessage
  m_bufPtr :: "16 word"

text \<open>
  \<^verbatim>\<open>reset()\<close>: state IDLE, the message zeroed by \<^verbatim>\<open>memset\<close> (direction 0 is OUTBOUND),
  then \<^verbatim>\<open>cmd = UNKNOWN\<close> and the cursor 0.
\<close>

definition reset :: "MspMessageParser \<Rightarrow> MspMessageParser" where
  "reset p =
     p\<lparr>m_state := IDLE,
       m_msg := \<lparr>direction = OUTBOUND, cmd = 0, msg_size = 0, checksum = 0,
                 payload = replicate MSP_MAX_PAYLOAD_SIZE 0\<rparr>\<lparr>cmd := UNKNOWN\<rparr>,
       m_bufPtr := 0\<rparr>"

text \<open>
  The constructor: the default member initialisers (\<^verbatim>\<open>m_state{IDLE}\<close>, \<^verbatim>\<open>m_msg{}\<close> with
  the defaults of \<^verbatim>\<open>MspMessage\<close>, \<^verbatim>\<open>m_bufPtr{0}\<close>), then \<^verbatim>\<open>reset()\<close>.
\<close>

definition MspMessageParser_new :: MspMessageParser where
  "MspMessageParser_new =
     reset \<lparr>m_state = IDLE,
            m_msg = \<lparr>direction = OUTBOUND, cmd = UNKNOWN, msg_size = 0, checksum = 0,
                     payload = replicate MSP_MAX_PAYLOAD_SIZE 0\<rparr>,
            m_bufPtr = 0\<rparr>"

definition toMspCommand :: "8 word \<Rightarrow> MspCommand" where
  "toMspCommand c =
     (if c = 101 then STATUS
      else if c = 108 then ATTITUDE
      else if c = 105 then RC
      else if c = 102 then FC_VARIANT
      else UNKNOWN)"

text \<open>
  \<^verbatim>\<open>processByte(uint8_t byte)\<close>. The markers are \<^verbatim>\<open>'$'\<close> = 0x24, \<^verbatim>\<open>'M'\<close> = 0x4D,
  \<^verbatim>\<open>'<'\<close> = 0x3C and \<^verbatim>\<open>'>'\<close> = 0x3E. In the comparison \<^verbatim>\<open>m_msg.size > MSP_MAX_PAYLOAD_SIZE\<close>
  the byte is promoted to \<^verbatim>\<open>int\<close>, hence \<open>unat\<close>; likewise in \<^verbatim>\<open>m_bufPtr == m_msg.size\<close>.
  The write \<^verbatim>\<open>m_msg.payload[m_bufPtr++] = byte\<close> is defined only for an index below the
  capacity of the array; the result is \<open>None\<close> when the index is outside the array
  (undefined behaviour in the source).
\<close>

definition processByte ::
  "(MspMessage \<Rightarrow> 'h \<Rightarrow> 'h) \<Rightarrow> 8 word \<Rightarrow> MspMessageParser \<times> 'h \<Rightarrow> (MspMessageParser \<times> 'h) option"
where
  "processByte onMspMessage byte st =
     (case st of (p, h) \<Rightarrow>
        (case m_state p of
           IDLE \<Rightarrow>
             if byte = 0x24 then Some (p\<lparr>m_state := VERSION\<rparr>, h) else Some (p, h)
         | VERSION \<Rightarrow>
             if byte = 0x4D then Some (p\<lparr>m_state := DIRECTION\<rparr>, h) else Some (reset p, h)
         | DIRECTION \<Rightarrow>
             if byte = 0x3C then
               Some (p\<lparr>m_msg := (m_msg p)\<lparr>direction := OUTBOUND\<rparr>, m_state := SIZE\<rparr>, h)
             else if byte = 0x3E then
               Some (p\<lparr>m_msg := (m_msg p)\<lparr>direction := INBOUND\<rparr>, m_state := SIZE\<rparr>, h)
             else Some (reset p, h)
         | SIZE \<Rightarrow>
             (let p1 = p\<lparr>m_msg := (m_msg p)\<lparr>msg_size := byte, checksum := byte, cmd := UNKNOWN\<rparr>,
                         m_bufPtr := 0\<rparr>
              in if unat (msg_size (m_msg p1)) > MSP_MAX_PAYLOAD_SIZE then Some (reset p1, h)
                 else Some (p1\<lparr>m_state := CMD\<rparr>, h))
         | CMD \<Rightarrow>
             (let p1 = p\<lparr>m_msg := (m_msg p)\<lparr>checksum := checksum (m_msg p) XOR byte,
                                              cmd := toMspCommand byte\<rparr>,
                         m_bufPtr := 0\<rparr>
              in Some (p1\<lparr>m_state := (if msg_size (m_msg p1) = 0 then CHECKSUM else PAYLOAD)\<rparr>, h))
         | PAYLOAD \<Rightarrow>
             if unat (m_bufPtr p) < MSP_MAX_PAYLOAD_SIZE then
               (let p1 = p\<lparr>m_msg := (m_msg p)\<lparr>payload := (payload (m_msg p))[unat (m_bufPtr p) := byte]\<rparr>,
                           m_bufPtr := m_bufPtr p + 1\<rparr>;
                    p2 = p1\<lparr>m_msg := (m_msg p1)\<lparr>checksum := checksum (m_msg p1) XOR byte\<rparr>\<rparr>
                in if unat (m_bufPtr p2) = unat (msg_size (m_msg p2))
                   then Some (p2\<lparr>m_state := CHECKSUM\<rparr>, h)
                   else Some (p2, h))
             else None
         | CHECKSUM \<Rightarrow>
             Some (reset p,
                   if checksum (m_msg p) = byte then onMspMessage (m_msg p) h else h)))"

text \<open>
  The inner loop of \<^verbatim>\<open>main\<close>: \<^verbatim>\<open>for (i = 0; i < bytesRead; ++i) parser.processByte(buffer[i])\<close>,
  over the bytes the input source delivered, in order.
\<close>

fun feed ::
  "(MspMessage \<Rightarrow> 'h \<Rightarrow> 'h) \<Rightarrow> 8 word list \<Rightarrow> MspMessageParser \<times> 'h \<Rightarrow> (MspMessageParser \<times> 'h) option"
where
  "feed onMspMessage [] st = Some st"
| "feed onMspMessage (b # bs) st =
     (case processByte onMspMessage b st of
        None \<Rightarrow> None
      | Some st' \<Rightarrow> feed onMspMessage bs st')"

text \<open>
  A handler that only records the messages it is given, in order of arrival: the
  sequence of frames the parser emits.
\<close>

definition record_frame :: "MspMessage \<Rightarrow> MspMessage list \<Rightarrow> MspMessage list" where
  "record_frame msg frames = frames @ [msg]"

text \<open>
  The wire format \<^verbatim>\<open>$ M (< or >) LEN CMD payload CHECKSUM\<close> of a frame whose length
  byte, command byte, payload and checksum byte are given, and the exclusive-or of a
  sequence of bytes.
\<close>

definition direction_marker :: "Direction \<Rightarrow> 8 word" where
  "direction_marker d = (case d of OUTBOUND \<Rightarrow> 0x3C | INBOUND \<Rightarrow> 0x3E)"

definition xor_bytes :: "8 word list \<Rightarrow> 8 word" where
  "xor_bytes bs = foldl (XOR) 0 bs"

definition wire_frame :: "Direction \<Rightarrow> 8 word \<Rightarrow> 8 word list \<Rightarrow> 8 word list" where
  "wire_frame d c pl =
     [0x24, 0x4D, direction_marker d, of_nat (length pl), c] @ pl
       @ [xor_bytes (of_nat (length pl) # c # pl)]"

section \<open>Data model (shared state)\<close>

text \<open>
  \<^verbatim>\<open>struct FlightDataModel\<close> with its default member initialisers. \<^verbatim>\<open>int16_t\<close> and
  \<^verbatim>\<open>uint16_t\<close> values are 16-bit words (\<open>sint\<close> reads the signed ones), \<^verbatim>\<open>char\<close> is a
  byte. \<^verbatim>\<open>fbCursor\<close> is a \<^verbatim>\<open>size_t\<close> that stays at or below \<open>FRAME_BUFFER_SIZE\<close>
  (lemma \<open>copyToFrameBuffer_in_bounds\<close>), so it is a natural number.
\<close>

record FlightDataModel =
  armed :: bool
  pitch :: "16 word"
  roll :: "16 word"
  heading :: "16 word"
  channels :: "16 word list"
  fcIdentifier :: "8 word list"
  frameBuffer :: "8 word list"
  fbCursor :: nat
  verbose :: bool

definition FlightDataModel_new :: FlightDataModel where
  "FlightDataModel_new =
     \<lparr>armed = False, pitch = 0, roll = 0, heading = 0,
      channels = replicate CHANNEL_COUNT 0,
      fcIdentifier = replicate 5 0,
      frameBuffer = replicate FRAME_BUFFER_SIZE 0,
      fbCursor = 0,
      verbose = True\<rparr>"

text \<open>
  What the model, the executors, the dispatcher and the handler write: one constructor
  for each of their \<^verbatim>\<open>cout\<close> statements, carrying the values printed, and one for the
  datagram of \<^verbatim>\<open>RcCommandAlinkForwarder\<close> (link quality twice, recovered packets, lost
  packets; its first field, the clock's \<^verbatim>\<open>time(nullptr)\<close>, and the four constant fields
  are left out, and so is the error line of a failed \<^verbatim>\<open>sendto\<close>).
\<close>

datatype Output =
    FlushingFrameBuffer nat
  | StatusArmed bool
  | AttitudeValues "16 word" "16 word" "16 word"
  | FlightController "8 word list"
  | Channels "16 word list"
  | ReceivedMspMsg MspCommand "8 word"
  | UnhandledCommand MspCommand
  | AlinkDatagram "16 word" "16 word" "16 word" "16 word"

text \<open>
  \<^verbatim>\<open>flushFrameBuffer\<close> and \<^verbatim>\<open>copyToFrameBuffer(data, size)\<close>, on the model and the
  console. \<open>data\<close> is the \<open>size\<close> bytes at the pointer. \<^verbatim>\<open>memcpy\<close> overwrites the
  bytes at positions \<open>fbCursor\<close> to \<open>fbCursor + size - 1\<close>; its only caller passes the
  260 bytes of an \<^verbatim>\<open>MspMessage\<close>, for which the copy stays inside the buffer.
\<close>

definition flushFrameBuffer :: "FlightDataModel \<times> Output list \<Rightarrow> FlightDataModel \<times> Output list" where
  "flushFrameBuffer st =
     (case st of (dm, out) \<Rightarrow>
        (dm\<lparr>fbCursor := 0\<rparr>,
         if verbose dm then out @ [FlushingFrameBuffer (fbCursor dm)] else out))"

definition copyToFrameBuffer ::
  "8 word list \<Rightarrow> FlightDataModel \<times> Output list \<Rightarrow> FlightDataModel \<times> Output list"
where
  "copyToFrameBuffer data st =
     (case (if fbCursor (fst st) + length data > FRAME_BUFFER_SIZE then flushFrameBuffer st else st)
      of (dm, out) \<Rightarrow>
        (dm\<lparr>frameBuffer := take (fbCursor dm) (frameBuffer dm) @ data
                               @ drop (fbCursor dm + length data) (frameBuffer dm),
            fbCursor := fbCursor dm + length data\<rparr>, out))"

text \<open>
  The object representation of an \<^verbatim>\<open>MspMessage\<close>, which \<^verbatim>\<open>onMspMessage\<close> copies with
  \<^verbatim>\<open>sizeof(msg)\<close>: four one-byte fields, then the payload array (no padding, every
  member has alignment 1).
\<close>

definition direction_byte :: "Direction \<Rightarrow> 8 word" where
  "direction_byte d = (case d of OUTBOUND \<Rightarrow> 0 | INBOUND \<Rightarrow> 1)"

definition msg_bytes :: "MspMessage \<Rightarrow> 8 word list" where
  "msg_bytes msg = [direction_byte (direction msg), cmd msg, msg_size msg, checksum msg] @ payload msg"

section \<open>Command executors\<close>

text \<open>
  \<^verbatim>\<open>IMspCommandExecutor::execute(const MspMessage& msg, FlightDataModel& dataModel)\<close>:
  an executor reads the message and changes the model it is given and the console.
\<close>

type_synonym IMspCommandExecutor =
  "MspMessage \<Rightarrow> FlightDataModel \<times> Output list \<Rightarrow> FlightDataModel \<times> Output list"

definition StatusCommandExecutor :: IMspCommandExecutor where
  "StatusCommandExecutor msg st =
     (case st of (dm, out) \<Rightarrow>
        (let dm1 = (if unat (msg_size msg) > 6
                    then dm\<lparr>armed := ((payload msg ! 6) AND 0x01 \<noteq> 0)\<rparr> else dm)
         in (dm1, if verbose dm1 then out @ [StatusArmed (armed dm1)] else out)))"

text \<open>
  The 16-bit value that \<^verbatim>\<open>reinterpret_cast\<close> and \<^verbatim>\<open>memcpy\<close> read from two consecutive
  payload bytes on the little-endian targets of the build scripts.
\<close>

definition le16 :: "8 word list \<Rightarrow> nat \<Rightarrow> 16 word" where
  "le16 bs i = ucast (bs ! i) OR push_bit 8 (ucast (bs ! (i + 1)))"

definition AttitudeCommandExecutor :: IMspCommandExecutor where
  "AttitudeCommandExecutor msg st =
     (case st of (dm, out) \<Rightarrow>
        if unat (msg_size msg) \<ge> 6 then
          (let dm1 = dm\<lparr>roll := le16 (payload msg) 0,
                        pitch := le16 (payload msg) 2,
                        heading := le16 (payload msg) 4\<rparr>
           in (dm1, if verbose dm1
                    then out @ [AttitudeValues (pitch dm1) (roll dm1) (heading dm1)] else out))
        else (dm, out))"

text \<open>
  \<^verbatim>\<open>strncmp(a, b, n) != 0\<close>: the strings differ within the first \<open>n\<close> characters,
  where the comparison stops at a terminating zero.
\<close>

fun strncmp_differs :: "8 word list \<Rightarrow> 8 word list \<Rightarrow> nat \<Rightarrow> bool" where
  "strncmp_differs (a # as) (b # bs) (Suc n) =
     (if a \<noteq> b then True else if a = 0 then False else strncmp_differs as bs n)"
| "strncmp_differs _ _ _ = False"

definition FcVariantCommandExecutor :: IMspCommandExecutor where
  "FcVariantCommandExecutor msg st =
     (case st of (dm, out) \<Rightarrow>
        if unat (msg_size msg) \<ge> 4 then
          if strncmp_differs (fcIdentifier dm) (payload msg) 4 then
            (let dm1 = dm\<lparr>fcIdentifier := (take 4 (payload msg) @ drop 4 (fcIdentifier dm))[4 := 0]\<rparr>
             in (dm1, if verbose dm1
                      then out @ [FlightController (takeWhile (\<lambda>c. c \<noteq> 0) (fcIdentifier dm1))]
                      else out))
          else (dm, out)
        else (dm, out))"

definition RcCommandConsoleExecutor :: IMspCommandExecutor where
  "RcCommandConsoleExecutor msg st =
     (case st of (dm, out) \<Rightarrow>
        if unat (msg_size msg) \<ge> 16 * 2 then
          (let dm1 = dm\<lparr>channels := map (\<lambda>i. le16 (payload msg) (2 * i)) [0..<16]
                                       @ drop 16 (channels dm)\<rparr>
           in (dm1, if verbose dm1 then out @ [Channels (take CHANNEL_COUNT (channels dm1))] else out))
        else (dm, out))"

definition RcCommandAlinkForwarder :: IMspCommandExecutor where
  "RcCommandAlinkForwarder msg st =
     (case st of (dm, out) \<Rightarrow>
        if unat (msg_size msg) \<ge> 16 * 2 then
          (let link_quality = channels dm ! 8;
               lost_packets = (channels dm ! 10) AND 0x1F;
               recovered_packets = drop_bit 5 (channels dm ! 11) AND 0x1F
           in (dm, out @ [AlinkDatagram link_quality link_quality recovered_packets lost_packets]))
        else (dm, out))"

section \<open>Command dispatcher\<close>

text \<open>
  \<^verbatim>\<open>class MspCommandDispatcher\<close>: the table \<^verbatim>\<open>m_executors\<close> (a \<^verbatim>\<open>std::map\<close> from command
  to a vector of executors) and the reference \<^verbatim>\<open>m_dataModel\<close>. The functions take the
  table, and the referenced model with the console.
\<close>

type_synonym Executors = "MspCommand \<rightharpoonup> IMspCommandExecutor list"

text \<open>\<^verbatim>\<open>m_executors[cmd].push_back(move(executor))\<close>: \<^verbatim>\<open>operator[]\<close> makes an empty vector for a new key.\<close>

definition registerExecutor :: "MspCommand \<Rightarrow> IMspCommandExecutor \<Rightarrow> Executors \<Rightarrow> Executors" where
  "registerExecutor c executor m_executors =
     m_executors(c \<mapsto> (case m_executors c of None \<Rightarrow> [] | Some es \<Rightarrow> es) @ [executor])"

text \<open>The constructor registers the three base executors.\<close>

definition MspCommandDispatcher_new :: Executors where
  "MspCommandDispatcher_new =
     registerExecutor FC_VARIANT FcVariantCommandExecutor
       (registerExecutor ATTITUDE AttitudeCommandExecutor
          (registerExecutor STATUS StatusCommandExecutor Map.empty))"

text \<open>The loop \<^verbatim>\<open>for (auto& exec : it->second) exec->execute(msg, m_dataModel)\<close>.\<close>

fun execute_all ::
  "IMspCommandExecutor list \<Rightarrow> MspMessage \<Rightarrow> FlightDataModel \<times> Output list \<Rightarrow> FlightDataModel \<times> Output list"
where
  "execute_all [] msg st = st"
| "execute_all (exec # es) msg st = execute_all es msg (exec msg st)"

definition dispatchMessage ::
  "Executors \<Rightarrow> MspMessage \<Rightarrow> FlightDataModel \<times> Output list \<Rightarrow> FlightDataModel \<times> Output list"
where
  "dispatchMessage m_executors msg st =
     (case m_executors (cmd msg) of
        Some es \<Rightarrow> execute_all es msg st
      | None \<Rightarrow>
          (case st of (dm, out) \<Rightarrow>
             if verbose dm then (dm, out @ [UnhandledCommand (cmd msg)]) else (dm, out)))"

section \<open>Message handler and wiring\<close>

text \<open>
  The objects \<^verbatim>\<open>main\<close> builds. \<^verbatim>\<open>flightModel\<close> is the local variable of \<^verbatim>\<open>main\<close>; the
  dispatcher's \<^verbatim>\<open>FlightDataModel& m_dataModel\<close> refers to it. \<^verbatim>\<open>handler_dataModel\<close> is
  the member \<^verbatim>\<open>FlightDataModel m_dataModel\<close> of \<^verbatim>\<open>MspMessageHandler\<close>, an object of its
  own, copied from the constructor's argument. \<^verbatim>\<open>dispatcher_executors\<close> is the table of
  the handler's \<^verbatim>\<open>m_dispatcher\<close>, and \<^verbatim>\<open>console\<close> what has been written so far.
\<close>

record World =
  flightModel :: FlightDataModel
  handler_dataModel :: FlightDataModel
  dispatcher_executors :: Executors
  console :: "Output list"

text \<open>\<^verbatim>\<open>MspMessageHandler(FlightDataModel& model) : m_dataModel(model), m_dispatcher(model)\<close>.\<close>

definition MspMessageHandler_new :: "FlightDataModel \<Rightarrow> Output list \<Rightarrow> World" where
  "MspMessageHandler_new model out =
     \<lparr>flightModel = model, handler_dataModel = model,
      dispatcher_executors = MspCommandDispatcher_new, console = out\<rparr>"

definition onMspMessage :: "MspMessage \<Rightarrow> World \<Rightarrow> World" where
  "onMspMessage msg w =
     (let out1 = (if verbose (handler_dataModel w)
                  then console w @ [ReceivedMspMsg (cmd msg) (msg_size msg)] else console w);
          (copy2, out2) = copyToFrameBuffer (msg_bytes msg) (handler_dataModel w, out1);
          (model3, out3) = dispatchMessage (dispatcher_executors w) msg (flightModel w, out2)
      in w\<lparr>flightModel := model3, handler_dataModel := copy2, console := out3\<rparr>)"

text \<open>
  Steps 2 to 5 of \<^verbatim>\<open>main\<close>: the model with \<^verbatim>\<open>verbose = true\<close>, the handler, the RC
  executors (the forwarder only when an output port was given), and the parser.
\<close>

definition main_wiring :: "int \<Rightarrow> MspMessageParser \<times> World" where
  "main_wiring outPort =
     (let flightModel0 = FlightDataModel_new\<lparr>verbose := True\<rparr>;
          messageHandler = MspMessageHandler_new flightModel0 [];
          w1 = messageHandler\<lparr>dispatcher_executors :=
                 registerExecutor RC RcCommandConsoleExecutor (dispatcher_executors messageHandler)\<rparr>;
          w2 = (if outPort > 0
                then w1\<lparr>dispatcher_executors :=
                       registerExecutor RC RcCommandAlinkForwarder (dispatcher_executors w1)\<rparr>
                else w1)
      in (MspMessageParser_new, w2))"

section \<open>Notions used in the properties\<close>

text \<open>
  The message a well-formed frame decodes to: the direction of its marker, the command
  of its command byte, its length, the exclusive-or of length, command and payload bytes,
  and the payload followed by the zero bytes that \<^verbatim>\<open>reset()\<close> left in the array.
\<close>

definition decoded_frame :: "Direction \<Rightarrow> 8 word \<Rightarrow> 8 word list \<Rightarrow> MspMessage" where
  "decoded_frame d c pl =
     \<lparr>direction = d, cmd = toMspCommand c, msg_size = of_nat (length pl),
      checksum = xor_bytes (of_nat (length pl) # c # pl),
      payload = pl @ replicate (MSP_MAX_PAYLOAD_SIZE - length pl) 0\<rparr>"

text \<open>
  What holds of the parser after every byte: the payload array keeps its capacity, the
  IDLE state is the state \<^verbatim>\<open>reset()\<close> leaves, and in the PAYLOAD state the cursor is
  below the declared length.
\<close>

definition parser_inv :: "MspMessageParser \<Rightarrow> bool" where
  "parser_inv p \<longleftrightarrow>
     length (payload (m_msg p)) = MSP_MAX_PAYLOAD_SIZE \<and>
     (m_state p = IDLE \<longrightarrow> p = MspMessageParser_new) \<and>
     (m_state p = PAYLOAD \<longrightarrow> unat (m_bufPtr p) < unat (msg_size (m_msg p)))"

text \<open>
  How the state of the parser relates to the bytes \<open>bs\<close> fed so far: in the CMD state
  the last byte is the stored length and the checksum equals it; in the PAYLOAD and
  CHECKSUM states the stream ends with the length byte, a command byte and the payload
  bytes stored so far, and the checksum is their exclusive-or; in the CHECKSUM state the
  cursor has reached the length.
\<close>

definition frame_history :: "8 word list \<Rightarrow> MspMessageParser \<Rightarrow> bool" where
  "frame_history bs p \<longleftrightarrow>
     (m_state p = CMD \<longrightarrow>
        (\<exists>pre. bs = pre @ [msg_size (m_msg p)]) \<and> checksum (m_msg p) = msg_size (m_msg p)) \<and>
     (m_state p = PAYLOAD \<or> m_state p = CHECKSUM \<longrightarrow>
        (\<exists>pre c. bs = pre @ [msg_size (m_msg p), c] @ take (unat (m_bufPtr p)) (payload (m_msg p))
           \<and> cmd (m_msg p) = toMspCommand c
           \<and> checksum (m_msg p) =
               xor_bytes (msg_size (m_msg p) # c # take (unat (m_bufPtr p)) (payload (m_msg p))))) \<and>
     (m_state p = CHECKSUM \<longrightarrow> unat (m_bufPtr p) = unat (msg_size (m_msg p)))"

text \<open>
  The console as \<^verbatim>\<open>onMspMessage\<close> leaves it before it calls the dispatcher: the line
  of the handler, when its copy of the model is verbose, and the line of a flush.
\<close>

definition console_after_receive :: "MspMessage \<Rightarrow> World \<Rightarrow> Output list" where
  "console_after_receive msg w =
     snd (copyToFrameBuffer (msg_bytes msg)
            (handler_dataModel w,
             if verbose (handler_dataModel w)
             then console w @ [ReceivedMspMsg (cmd msg) (msg_size msg)] else console w))"

text \<open>An executor that leaves the frame buffer and its cursor as they are, on every message and model.\<close>

definition preserves_frame_buffer :: "IMspCommandExecutor \<Rightarrow> bool" where
  "preserves_frame_buffer exec \<longleftrightarrow>
     (\<forall>msg dm out. frameBuffer (fst (exec msg (dm, out))) = frameBuffer dm
                  \<and> fbCursor (fst (exec msg (dm, out))) = fbCursor dm)"

text \<open>
  The wire format of the specification, read off a byte sequence: the sequence starts
  with a valid frame when it starts with \<^verbatim>\<open>$ M\<close>, a direction marker, a length byte LEN
  and a command byte, and has at least LEN + 1 further bytes, the last of which is the
  exclusive-or of LEN, the command byte and the LEN payload bytes. A sequence contains a
  valid frame when one of its suffixes starts with one (lemma
  \<open>contains_valid_frame_iff\<close>: when it is some bytes, a \<open>wire_frame\<close>, and some bytes).
\<close>

fun starts_with_frame :: "8 word list \<Rightarrow> bool" where
  "starts_with_frame (s # m # d # n # c # rest) =
     (s = 0x24 \<and> m = 0x4D \<and> (d = 0x3C \<or> d = 0x3E) \<and> unat n < length rest
      \<and> rest ! unat n = xor_bytes (n # c # take (unat n) rest))"
| "starts_with_frame _ = False"

fun contains_valid_frame :: "8 word list \<Rightarrow> bool" where
  "contains_valid_frame [] = False"
| "contains_valid_frame (b # bs) = (starts_with_frame (b # bs) \<or> contains_valid_frame bs)"

text \<open>
  How the state of the parser relates to the bytes \<open>bs\<close> fed so far, from the start
  marker on: in each state after IDLE the stream ends with the part of a frame read so
  far, with the direction and the length that the parser has stored, and from the CMD
  state on the checksum is the exclusive-or of the length, command and payload bytes
  read so far.
\<close>

definition stream_history :: "8 word list \<Rightarrow> MspMessageParser \<Rightarrow> bool" where
  "stream_history bs p \<longleftrightarrow>
     (m_state p = VERSION \<longrightarrow> (\<exists>pre. bs = pre @ [0x24])) \<and>
     (m_state p = DIRECTION \<longrightarrow> (\<exists>pre. bs = pre @ [0x24, 0x4D])) \<and>
     (m_state p = SIZE \<longrightarrow>
        (\<exists>pre. bs = pre @ [0x24, 0x4D, direction_marker (direction (m_msg p))])) \<and>
     (m_state p = CMD \<longrightarrow>
        (\<exists>pre. bs = pre @ [0x24, 0x4D, direction_marker (direction (m_msg p)), msg_size (m_msg p)])
        \<and> checksum (m_msg p) = msg_size (m_msg p)) \<and>
     (m_state p = PAYLOAD \<or> m_state p = CHECKSUM \<longrightarrow>
        (\<exists>pre c. bs = pre @ [0x24, 0x4D, direction_marker (direction (m_msg p)), msg_size (m_msg p), c]
                        @ take (unat (m_bufPtr p)) (payload (m_msg p))
           \<and> checksum (m_msg p) =
               xor_bytes (msg_size (m_msg p) # c # take (unat (m_bufPtr p)) (payload (m_msg p))))) \<and>
     (m_state p = CHECKSUM \<longrightarrow> unat (m_bufPtr p) = unat (msg_size (m_msg p)))"

section \<open>The parser, one byte at a time\<close>


lemma reset_eq_new: "reset p = MspMessageParser_new"
  by (cases p) (simp add: reset_def MspMessageParser_new_def)

lemma processByte_IDLE:
  "m_state p = IDLE \<Longrightarrow>
   processByte h b (p, hs) = Some (if b = 0x24 then p\<lparr>m_state := VERSION\<rparr> else p, hs)"
  by (simp add: processByte_def)

lemma processByte_VERSION:
  "m_state p = VERSION \<Longrightarrow>
   processByte h b (p, hs) = Some (if b = 0x4D then p\<lparr>m_state := DIRECTION\<rparr> else MspMessageParser_new, hs)"
  by (simp add: processByte_def reset_eq_new)

lemma processByte_DIRECTION:
  "m_state p = DIRECTION \<Longrightarrow>
   processByte h b (p, hs) =
     Some (if b = 0x3C then p\<lparr>m_msg := (m_msg p)\<lparr>direction := OUTBOUND\<rparr>, m_state := SIZE\<rparr>
           else if b = 0x3E then p\<lparr>m_msg := (m_msg p)\<lparr>direction := INBOUND\<rparr>, m_state := SIZE\<rparr>
           else MspMessageParser_new, hs)"
  by (simp add: processByte_def reset_eq_new)

lemma unat_byte_le: "unat (b :: 8 word) \<le> 255"
  using unsigned_less [of b, where ?'a = nat] by simp

lemma processByte_SIZE:
  "m_state p = SIZE \<Longrightarrow>
   processByte h b (p, hs) =
     Some (p\<lparr>m_msg := (m_msg p)\<lparr>msg_size := b, checksum := b, cmd := UNKNOWN\<rparr>,
             m_bufPtr := 0, m_state := CMD\<rparr>, hs)"
  using unat_byte_le [of b] by (simp add: processByte_def MSP_MAX_PAYLOAD_SIZE_def Let_def)

lemma processByte_CMD:
  "m_state p = CMD \<Longrightarrow>
   processByte h b (p, hs) =
     Some (p\<lparr>m_msg := (m_msg p)\<lparr>checksum := checksum (m_msg p) XOR b, cmd := toMspCommand b\<rparr>,
             m_bufPtr := 0,
             m_state := (if msg_size (m_msg p) = 0 then CHECKSUM else PAYLOAD)\<rparr>, hs)"
  by (simp add: processByte_def Let_def)

lemma processByte_PAYLOAD:
  "m_state p = PAYLOAD \<Longrightarrow> unat (m_bufPtr p) < MSP_MAX_PAYLOAD_SIZE \<Longrightarrow>
   processByte h b (p, hs) =
     Some (p\<lparr>m_msg := (m_msg p)\<lparr>payload := (payload (m_msg p))[unat (m_bufPtr p) := b],
                               checksum := checksum (m_msg p) XOR b\<rparr>,
             m_bufPtr := m_bufPtr p + 1,
             m_state := (if unat (m_bufPtr p + 1) = unat (msg_size (m_msg p)) then CHECKSUM else PAYLOAD)\<rparr>, hs)"
  by (simp add: processByte_def Let_def)

lemma processByte_CHECKSUM:
  "m_state p = CHECKSUM \<Longrightarrow>
   processByte h b (p, hs) =
     Some (MspMessageParser_new, if checksum (m_msg p) = b then h (m_msg p) hs else hs)"
  by (simp add: processByte_def reset_eq_new)

lemma feed_append:
  "feed h (xs @ ys) st = (case feed h xs st of None \<Rightarrow> None | Some st' \<Rightarrow> feed h ys st')"
  by (induction xs arbitrary: st) (auto split: option.splits)

lemma feed_snoc:
  "feed h (xs @ [b]) st = (case feed h xs st of None \<Rightarrow> None | Some st' \<Rightarrow> processByte h b st')"
  by (simp add: feed_append split: option.splits)


lemma unat_bufPtr_Suc: "unat (w :: 16 word) < 256 \<Longrightarrow> unat (w + 1) = Suc (unat w)"
  by (simp add: unat_word_ariths)

lemma parser_inv_new: "parser_inv MspMessageParser_new"
  by (simp add: parser_inv_def MspMessageParser_new_def reset_def)

lemma new_fields:
  "m_state MspMessageParser_new = IDLE"
  "m_bufPtr MspMessageParser_new = 0"
  "m_msg MspMessageParser_new =
     \<lparr>direction = OUTBOUND, cmd = UNKNOWN, msg_size = 0, checksum = 0,
      payload = replicate MSP_MAX_PAYLOAD_SIZE 0\<rparr>"
  by (simp_all add: MspMessageParser_new_def reset_def)

lemma processByte_inv:
  assumes "parser_inv p"
  shows "\<exists>p' hs'. processByte h b (p, hs) = Some (p', hs') \<and> parser_inv p'"
proof (cases "m_state p")
  case IDLE
  then show ?thesis using assms
    by (auto simp add: processByte_IDLE parser_inv_def)
next
  case VERSION
  then show ?thesis using assms parser_inv_new
    by (simp add: processByte_VERSION parser_inv_def)
next
  case DIRECTION
  then show ?thesis using assms parser_inv_new
    by (simp add: processByte_DIRECTION parser_inv_def)
next
  case SIZE
  then show ?thesis using assms
    by (simp add: processByte_SIZE parser_inv_def)
next
  case CMD
  then show ?thesis using assms
    by (simp add: processByte_CMD parser_inv_def unat_gt_0)
next
  case PAYLOAD
  with assms have lt: "unat (m_bufPtr p) < unat (msg_size (m_msg p))"
    by (simp add: parser_inv_def)
  with unat_byte_le [of "msg_size (m_msg p)"] have lt256: "unat (m_bufPtr p) < 256"
    by simp
  then have suc: "unat (m_bufPtr p + 1) = Suc (unat (m_bufPtr p))"
    by (rule unat_bufPtr_Suc)
  from lt256 have "unat (m_bufPtr p) < MSP_MAX_PAYLOAD_SIZE"
    by (simp add: MSP_MAX_PAYLOAD_SIZE_def)
  with PAYLOAD show ?thesis using assms lt suc
    by (simp add: processByte_PAYLOAD parser_inv_def)
next
  case CHECKSUM
  then show ?thesis using parser_inv_new
    by (simp add: processByte_CHECKSUM)
qed

lemma feed_inv:
  "parser_inv p \<Longrightarrow> \<exists>p' hs'. feed h bs (p, hs) = Some (p', hs') \<and> parser_inv p'"
proof (induction bs arbitrary: p hs)
  case Nil
  then show ?case by simp
next
  case (Cons b bs)
  from processByte_inv [OF Cons.prems, of h b hs]
  obtain p1 hs1 where step: "processByte h b (p, hs) = Some (p1, hs1)" and inv1: "parser_inv p1"
    by blast
  from Cons.IH [OF inv1, of hs1] step show ?case by simp
qed


lemma feed_payload:
  assumes "m_state p = PAYLOAD" and "bs \<noteq> []"
    and "unat (m_bufPtr p) + length bs = unat (msg_size (m_msg p))"
    and "length (payload (m_msg p)) = MSP_MAX_PAYLOAD_SIZE"
  shows "feed h bs (p, hs) =
           Some (p\<lparr>m_msg := (m_msg p)\<lparr>payload := take (unat (m_bufPtr p)) (payload (m_msg p)) @ bs
                                          @ drop (unat (msg_size (m_msg p))) (payload (m_msg p)),
                                      checksum := foldl (XOR) (checksum (m_msg p)) bs\<rparr>,
                   m_bufPtr := m_bufPtr p + of_nat (length bs),
                   m_state := CHECKSUM\<rparr>, hs)"
  using assms
proof (induction bs arbitrary: p)
  case Nil
  then show ?case by simp
next
  case (Cons b bs)
  let ?k = "unat (m_bufPtr p)"
  let ?n = "unat (msg_size (m_msg p))"
  let ?pl = "payload (m_msg p)"
  from Cons.prems have kn: "?k < ?n" by simp
  with unat_byte_le [of "msg_size (m_msg p)"] have k256: "?k < 256" by simp
  then have suc: "unat (m_bufPtr p + 1) = Suc ?k" by (rule unat_bufPtr_Suc)
  from k256 have inb: "?k < MSP_MAX_PAYLOAD_SIZE" by (simp add: MSP_MAX_PAYLOAD_SIZE_def)
  from Cons.prems inb have klen: "?k < length ?pl" by simp
  define p1 where "p1 = p\<lparr>m_msg := (m_msg p)\<lparr>payload := ?pl[?k := b],
                               checksum := checksum (m_msg p) XOR b\<rparr>,
             m_bufPtr := m_bufPtr p + 1,
             m_state := (if unat (m_bufPtr p + 1) = ?n then CHECKSUM else PAYLOAD)\<rparr>"
  have step: "processByte h b (p, hs) = Some (p1, hs)"
    unfolding p1_def using Cons.prems(1) inb by (rule processByte_PAYLOAD)
  show ?case
  proof (cases "bs = []")
    case True
    with Cons.prems suc have "unat (m_bufPtr p + 1) = ?n" by simp
    with True step klen show ?thesis
      by (simp add: p1_def upd_conv_take_nth_drop suc [symmetric])
  next
    case False
    with Cons.prems suc have ne: "unat (m_bufPtr p + 1) \<noteq> ?n" by (cases bs) auto
    then have st1: "m_state p1 = PAYLOAD" by (simp add: p1_def)
    have sum1: "unat (m_bufPtr p1) + length bs = unat (msg_size (m_msg p1))"
      using Cons.prems suc by (simp add: p1_def)
    have len1: "length (payload (m_msg p1)) = MSP_MAX_PAYLOAD_SIZE"
      using Cons.prems by (simp add: p1_def)
    have tk: "take (Suc ?k) (?pl[?k := b]) = take ?k ?pl @ [b]"
      using klen by (simp add: take_Suc_conv_app_nth)
    have dr: "drop ?n (?pl[?k := b]) = drop ?n ?pl"
      using kn by simp
    from Cons.IH [OF st1 False sum1 len1] step tk dr suc ne show ?thesis
      by (simp add: p1_def)
  qed
qed

lemma feed_wire_frame:
  assumes "length pl \<le> 255"
  shows "feed h (wire_frame d c pl) (MspMessageParser_new, hs) =
           Some (MspMessageParser_new, h (decoded_frame d c pl) hs)"
proof -
  let ?n = "of_nat (length pl) :: 8 word"
  define p4 where "p4 = MspMessageParser_new
      \<lparr>m_msg := \<lparr>direction = d, cmd = UNKNOWN, msg_size = ?n, checksum = ?n,
                 payload = replicate MSP_MAX_PAYLOAD_SIZE 0\<rparr>,
        m_bufPtr := 0, m_state := CMD\<rparr>"
  have un: "unat ?n = length pl"
    using assms by (simp add: unat_of_nat)
  have hdr: "feed h [0x24, 0x4D, direction_marker d, ?n] (MspMessageParser_new, hs) = Some (p4, hs)"
    by (cases d)
       (simp_all add: processByte_IDLE processByte_VERSION processByte_DIRECTION processByte_SIZE
          new_fields direction_marker_def p4_def)
  define p5 where "p5 = p4\<lparr>m_msg := (m_msg p4)\<lparr>checksum := ?n XOR c, cmd := toMspCommand c\<rparr>,
      m_state := (if ?n = 0 then CHECKSUM else PAYLOAD)\<rparr>"
  have cmdstep: "processByte h c (p4, hs) = Some (p5, hs)"
    by (simp add: processByte_CMD p4_def p5_def)
  have body: "\<exists>p6. feed h pl (p5, hs) = Some (p6, hs) \<and> m_state p6 = CHECKSUM
                 \<and> m_msg p6 = decoded_frame d c pl"
  proof (cases "pl = []")
    case True
    then show ?thesis
      by (simp add: p5_def p4_def decoded_frame_def xor_bytes_def)
  next
    case False
    with un have n0: "?n \<noteq> 0" by (metis length_0_conv unat_0)
    then have st5: "m_state p5 = PAYLOAD" by (simp add: p5_def)
    have sum5: "unat (m_bufPtr p5) + length pl = unat (msg_size (m_msg p5))"
      using un by (simp add: p5_def p4_def)
    have len5: "length (payload (m_msg p5)) = MSP_MAX_PAYLOAD_SIZE"
      by (simp add: p5_def p4_def)
    show ?thesis
      unfolding feed_payload [OF st5 False sum5 len5]
      using un by (simp add: p5_def p4_def decoded_frame_def xor_bytes_def)
  qed
  then obtain p6 where f6: "feed h pl (p5, hs) = Some (p6, hs)" and st6: "m_state p6 = CHECKSUM"
    and msg6: "m_msg p6 = decoded_frame d c pl" by blast
  have cs: "checksum (decoded_frame d c pl) = xor_bytes (?n # c # pl)"
    by (simp add: decoded_frame_def)
  have last: "processByte h (xor_bytes (?n # c # pl)) (p6, hs) =
                Some (MspMessageParser_new, h (decoded_frame d c pl) hs)"
    using st6 msg6 cs by (simp add: processByte_CHECKSUM)
  have split: "wire_frame d c pl =
      [0x24, 0x4D, direction_marker d, ?n] @ [c] @ pl @ [xor_bytes (?n # c # pl)]"
    by (simp add: wire_frame_def)
  show ?thesis
    unfolding split feed_append hdr using cmdstep f6 last by simp
qed

lemmas parser_eval =
  processByte_def reset_def MspMessageParser_new_def MSP_MAX_PAYLOAD_SIZE_def
  toMspCommand_def UNKNOWN_def STATUS_def ATTITUDE_def RC_def FC_VARIANT_def
  record_frame_def wire_frame_def xor_bytes_def direction_marker_def decoded_frame_def Let_def

section \<open>Frames in a stream\<close>

lemma xor_bytes_snoc: "xor_bytes (bs @ [b]) = xor_bytes bs XOR b"
  by (simp add: xor_bytes_def)

lemma starts_with_frame_wire:
  assumes "length pl \<le> 255"
  shows "starts_with_frame (wire_frame d c pl @ suf)"
proof -
  have un: "unat (of_nat (length pl) :: 8 word) = length pl"
    using assms by (simp add: unat_of_nat)
  show ?thesis
    by (cases d) (simp_all add: wire_frame_def direction_marker_def un nth_append)
qed

lemma starts_with_frame_decompose:
  assumes "starts_with_frame bs"
  shows "\<exists>d c pl suf. length pl \<le> 255 \<and> bs = wire_frame d c pl @ suf"
proof -
  from assms obtain s m k n c rest where bs: "bs = s # m # k # n # c # rest"
    by (cases bs rule: starts_with_frame.cases) auto
  with assms have s: "s = 0x24" and m: "m = 0x4D" and k: "k = 0x3C \<or> k = 0x3E"
    and len: "unat n < length rest"
    and cs: "rest ! unat n = xor_bytes (n # c # take (unat n) rest)"
    by simp_all
  let ?pl = "take (unat n) rest"
  let ?d = "if k = 0x3C then OUTBOUND else INBOUND"
  have lpl: "length ?pl = unat n" using len by simp
  have n: "of_nat (length ?pl) = n" unfolding lpl by simp
  have le: "length ?pl \<le> 255" unfolding lpl by (rule unat_byte_le)
  have mk: "direction_marker ?d = k" using k by (auto simp add: direction_marker_def)
  have rest: "rest = ?pl @ [rest ! unat n] @ drop (Suc (unat n)) rest"
    using len by (simp add: id_take_nth_drop [symmetric])
  have "bs = wire_frame ?d c ?pl @ drop (Suc (unat n)) rest"
    unfolding wire_frame_def n mk using bs s m cs rest by simp
  with le show ?thesis by blast
qed

lemma contains_valid_frame_iff:
  "contains_valid_frame bs \<longleftrightarrow>
     (\<exists>pre d c pl suf. length pl \<le> 255 \<and> bs = pre @ wire_frame d c pl @ suf)"
proof (induction bs)
  case Nil
  show ?case by (simp add: wire_frame_def)
next
  case (Cons b bs)
  show ?case
  proof
    assume "contains_valid_frame (b # bs)"
    then consider "starts_with_frame (b # bs)" | "contains_valid_frame bs" by auto
    then show "\<exists>pre d c pl suf. length pl \<le> 255 \<and> b # bs = pre @ wire_frame d c pl @ suf"
    proof cases
      case 1
      from starts_with_frame_decompose [OF this] obtain d c pl suf
        where "length pl \<le> 255" and "b # bs = [] @ wire_frame d c pl @ suf" by auto
      then show ?thesis by blast
    next
      case 2
      with Cons.IH obtain pre d c pl suf
        where "length pl \<le> 255" and "bs = pre @ wire_frame d c pl @ suf" by blast
      then have "b # bs = (b # pre) @ wire_frame d c pl @ suf" by simp
      with \<open>length pl \<le> 255\<close> show ?thesis by blast
    qed
  next
    assume "\<exists>pre d c pl suf. length pl \<le> 255 \<and> b # bs = pre @ wire_frame d c pl @ suf"
    then obtain pre d c pl suf where le: "length pl \<le> 255"
      and eq: "b # bs = pre @ wire_frame d c pl @ suf" by blast
    show "contains_valid_frame (b # bs)"
    proof (cases pre)
      case Nil
      with eq have "starts_with_frame (b # bs)"
        using starts_with_frame_wire [OF le, of d c suf] by simp
      then show ?thesis by simp
    next
      case (Cons x pre')
      with eq have "bs = pre' @ wire_frame d c pl @ suf" by simp
      with le have "\<exists>pre d c pl suf. length pl \<le> 255 \<and> bs = pre @ wire_frame d c pl @ suf"
        by blast
      with Cons.IH have "contains_valid_frame bs" by simp
      then show ?thesis by simp
    qed
  qed
qed

lemma contains_valid_frame_append:
  "contains_valid_frame xs \<Longrightarrow> contains_valid_frame (xs @ ys)"
proof -
  assume "contains_valid_frame xs"
  then obtain pre d c pl suf where "length pl \<le> 255" and "xs = pre @ wire_frame d c pl @ suf"
    unfolding contains_valid_frame_iff by blast
  then have "length pl \<le> 255 \<and> xs @ ys = pre @ wire_frame d c pl @ (suf @ ys)" by simp
  then show ?thesis unfolding contains_valid_frame_iff by blast
qed

lemma processByte_stream_history:
  assumes inv: "parser_inv p" and hist: "stream_history bs p"
    and step: "processByte h b (p, hs) = Some (p', hs')"
  shows "stream_history (bs @ [b]) p'"
proof (cases "m_state p")
  case IDLE
  with step show ?thesis by (auto simp add: processByte_IDLE stream_history_def split: if_splits)
next
  case VERSION
  with hist obtain pre where "bs = pre @ [0x24]" by (auto simp add: stream_history_def)
  with VERSION step show ?thesis
    by (auto simp add: processByte_VERSION stream_history_def new_fields split: if_splits)
next
  case DIRECTION
  with hist obtain pre where "bs = pre @ [0x24, 0x4D]" by (auto simp add: stream_history_def)
  with DIRECTION step show ?thesis
    by (auto simp add: processByte_DIRECTION stream_history_def new_fields direction_marker_def
        split: if_splits)
next
  case SIZE
  with hist obtain pre where "bs = pre @ [0x24, 0x4D, direction_marker (direction (m_msg p))]"
    by (auto simp add: stream_history_def)
  with SIZE step show ?thesis by (auto simp add: processByte_SIZE stream_history_def)
next
  case CMD
  with hist obtain pre where
    bs: "bs = pre @ [0x24, 0x4D, direction_marker (direction (m_msg p)), msg_size (m_msg p)]"
    and cs: "checksum (m_msg p) = msg_size (m_msg p)"
    by (auto simp add: stream_history_def)
  from CMD step have p': "p' = p\<lparr>m_msg := (m_msg p)\<lparr>checksum := checksum (m_msg p) XOR b, cmd := toMspCommand b\<rparr>,
             m_bufPtr := 0,
             m_state := (if msg_size (m_msg p) = 0 then CHECKSUM else PAYLOAD)\<rparr>"
    by (simp add: processByte_CMD)
  have "bs @ [b] = pre @ [0x24, 0x4D, direction_marker (direction (m_msg p)), msg_size (m_msg p), b] @ []"
    using bs by simp
  moreover have "checksum (m_msg p) XOR b = xor_bytes [msg_size (m_msg p), b]"
    using cs by (simp add: xor_bytes_def)
  ultimately show ?thesis
    unfolding stream_history_def p' by auto
next
  case PAYLOAD
  let ?k = "unat (m_bufPtr p)"
  let ?pl = "payload (m_msg p)"
  let ?hdr = "[0x24, 0x4D, direction_marker (direction (m_msg p)), msg_size (m_msg p)]"
  from inv PAYLOAD have kn: "?k < unat (msg_size (m_msg p))" and len: "length ?pl = MSP_MAX_PAYLOAD_SIZE"
    by (simp_all add: parser_inv_def)
  from kn unat_byte_le [of "msg_size (m_msg p)"] have k256: "?k < 256" by simp
  then have suc: "unat (m_bufPtr p + 1) = Suc ?k" by (rule unat_bufPtr_Suc)
  from k256 have inb: "?k < MSP_MAX_PAYLOAD_SIZE" by (simp add: MSP_MAX_PAYLOAD_SIZE_def)
  with len have klen: "?k < length ?pl" by simp
  from PAYLOAD hist obtain pre c where bs: "bs = pre @ (?hdr @ [c]) @ take ?k ?pl"
    and cs: "checksum (m_msg p) = xor_bytes (msg_size (m_msg p) # c # take ?k ?pl)"
    by (auto simp add: stream_history_def)
  from PAYLOAD inb step have p': "p' = p\<lparr>m_msg := (m_msg p)\<lparr>payload := ?pl[?k := b],
                               checksum := checksum (m_msg p) XOR b\<rparr>,
             m_bufPtr := m_bufPtr p + 1,
             m_state := (if unat (m_bufPtr p + 1) = unat (msg_size (m_msg p)) then CHECKSUM else PAYLOAD)\<rparr>"
    by (simp add: processByte_PAYLOAD)
  have tk: "take (Suc ?k) (?pl[?k := b]) = take ?k ?pl @ [b]"
    using klen by (simp add: take_Suc_conv_app_nth)
  have bs': "bs @ [b] = pre @ [0x24, 0x4D, direction_marker (direction (m_msg p)), msg_size (m_msg p), c]
                          @ take (Suc ?k) (?pl[?k := b])"
    using bs tk by simp
  have cs': "checksum (m_msg p) XOR b = xor_bytes (msg_size (m_msg p) # c # take (Suc ?k) (?pl[?k := b]))"
    using cs xor_bytes_snoc [of "msg_size (m_msg p) # c # take ?k ?pl" b] tk by simp
  show ?thesis
    unfolding stream_history_def p' using bs' cs' suc by auto
next
  case CHECKSUM
  with step show ?thesis by (auto simp add: processByte_CHECKSUM stream_history_def new_fields)
qed

lemma feed_stream_history:
  "feed h bs (MspMessageParser_new, hs) = Some (p, hs') \<Longrightarrow> parser_inv p \<and> stream_history bs p"
proof (induction bs arbitrary: p hs' rule: rev_induct)
  case Nil
  then show ?case
    by (auto simp add: parser_inv_new stream_history_def new_fields)
next
  case (snoc b bs)
  from snoc.prems obtain p0 hs0 where f0: "feed h bs (MspMessageParser_new, hs) = Some (p0, hs0)"
    and step: "processByte h b (p0, hs0) = Some (p, hs')"
    by (auto simp add: feed_snoc split: option.splits)
  from snoc.IH [OF f0] have inv0: "parser_inv p0" and hist0: "stream_history bs p0" by simp_all
  from processByte_inv [OF inv0, of h b hs0] step have "parser_inv p" by simp
  moreover from processByte_stream_history [OF inv0 hist0 step] have "stream_history (bs @ [b]) p" .
  ultimately show ?case by simp
qed

lemma checksum_state_frame:
  assumes inv: "parser_inv p" and hist: "stream_history bs p" and st: "m_state p = CHECKSUM"
  shows "contains_valid_frame (bs @ [checksum (m_msg p)])"
proof -
  let ?n = "msg_size (m_msg p)"
  let ?d = "direction (m_msg p)"
  let ?pl = "take (unat ?n) (payload (m_msg p))"
  from st hist obtain pre c where
    bs: "bs = pre @ [0x24, 0x4D, direction_marker ?d, ?n, c] @ take (unat (m_bufPtr p)) (payload (m_msg p))"
    and cs: "checksum (m_msg p) = xor_bytes (?n # c # take (unat (m_bufPtr p)) (payload (m_msg p)))"
    and k: "unat (m_bufPtr p) = unat ?n"
    by (auto simp add: stream_history_def)
  from inv unat_byte_le [of ?n] have lpl: "length ?pl = unat ?n"
    by (simp add: parser_inv_def MSP_MAX_PAYLOAD_SIZE_def)
  then have n: "of_nat (length ?pl) = ?n" by simp
  have le: "length ?pl \<le> 255" unfolding lpl by (rule unat_byte_le)
  have "bs @ [checksum (m_msg p)] = pre @ wire_frame ?d c ?pl @ []"
    unfolding wire_frame_def n using bs cs k by simp
  with le show ?thesis unfolding contains_valid_frame_iff by blast
qed

lemma no_frame_no_emission:
  "feed record_frame bs (MspMessageParser_new, []) = Some (p, frames) \<Longrightarrow>
   \<not> contains_valid_frame bs \<Longrightarrow> frames = []"
proof (induction bs arbitrary: p frames rule: rev_induct)
  case Nil
  then show ?case by simp
next
  case (snoc b bs)
  from snoc.prems(1) obtain p0 fs0 where f0: "feed record_frame bs (MspMessageParser_new, []) = Some (p0, fs0)"
    and step: "processByte record_frame b (p0, fs0) = Some (p, frames)"
    by (auto simp add: feed_snoc split: option.splits)
  from snoc.prems(2) contains_valid_frame_append [of bs "[b]"] have nb: "\<not> contains_valid_frame bs"
    by blast
  from snoc.IH [OF f0 nb] have fs0: "fs0 = []" .
  from feed_stream_history [OF f0] have inv0: "parser_inv p0" and hist0: "stream_history bs p0"
    by simp_all
  show ?case
  proof (cases "m_state p0 = CHECKSUM")
    case True
    from checksum_state_frame [OF inv0 hist0 True] snoc.prems(2)
    have "checksum (m_msg p0) \<noteq> b" by auto
    with True step fs0 show ?thesis by (simp add: processByte_CHECKSUM)
  next
    case False
    with step have "frames = fs0"
      by (cases "m_state p0") (auto simp add: processByte_def Let_def split: if_splits)
    with fs0 show ?thesis by simp
  qed
qed

section \<open>Resynchronisation\<close>

text \<open>
  C1, as the code has it. Take any bytes that contain no valid frame and after which the
  parser is in the IDLE state (no frame prefix is pending when they end). The bytes
  alone emit no frame, and feeding them and then one well-formed frame with a correct
  checksum emits exactly one frame, the decoded one, whatever the number and the content
  of those bytes; the parser is then again as the constructor left it.
\<close>

theorem resynchronization:
  assumes "\<not> contains_valid_frame garbage"
    and "feed record_frame garbage (MspMessageParser_new, []) = Some (p, frames)"
    and "m_state p = IDLE"
    and "length pl \<le> 255"
  shows "frames = []
       \<and> feed record_frame (garbage @ wire_frame d c pl) (MspMessageParser_new, [])
           = Some (MspMessageParser_new, [decoded_frame d c pl])"
proof -
  from no_frame_no_emission [OF assms(2) assms(1)] have fr: "frames = []" .
  from feed_inv [OF parser_inv_new, of record_frame garbage "[]"] assms(2)
  have "parser_inv p" by simp
  with assms(3) have "p = MspMessageParser_new" by (simp add: parser_inv_def)
  with assms(2) fr feed_wire_frame [OF assms(4), where h = record_frame and d = d and c = c and hs = "[]"]
  show ?thesis
    by (simp add: feed_append record_frame_def)
qed

text \<open>
  An instance: the bytes before the frame hold a frame with a wrong checksum, which the
  parser drops.
\<close>

theorem resynchronization_witness:
  "feed record_frame ([0x24, 0x4D, 0x3C, 0x01, 0x05, 0x09, 0x00] @ wire_frame INBOUND 7 [1, 2])
     (MspMessageParser_new, [])
   = Some (MspMessageParser_new, [decoded_frame INBOUND 7 [1, 2]])"
proof -
  have n: "\<not> contains_valid_frame [0x24, 0x4D, 0x3C, 0x01, 0x05, 0x09, 0x00]"
    by (simp add: xor_bytes_def)
  have g: "feed record_frame [0x24, 0x4D, 0x3C, 0x01, 0x05, 0x09, 0x00] (MspMessageParser_new, [])
             = Some (MspMessageParser_new, [])"
    by (simp add: parser_eval)
  have i: "m_state MspMessageParser_new = IDLE"
    by (simp add: new_fields)
  have l: "length [1, 2 :: 8 word] \<le> 255" by simp
  from resynchronization [OF n g i l] show ?thesis by simp
qed

text \<open>
  C1 as stated fails when the bytes before the frame end in a pending prefix. The single
  byte \<^verbatim>\<open>$\<close> contains no valid frame; the \<^verbatim>\<open>$\<close> of the frame that follows is then read in
  the VERSION state, is not \<^verbatim>\<open>M\<close>, and is discarded by \<^verbatim>\<open>reset()\<close>; the rest of the frame
  is skipped in the IDLE state and no frame is emitted.
\<close>

theorem resynchronization_counterexample:
  "\<not> contains_valid_frame [0x24]
   \<and> feed record_frame [0x24] (MspMessageParser_new, [])
     = Some (MspMessageParser_new\<lparr>m_state := VERSION\<rparr>, [])
   \<and> feed record_frame ([0x24] @ wire_frame OUTBOUND 102 []) (MspMessageParser_new, [])
     = Some (MspMessageParser_new, [])"
  by (simp add: parser_eval)

section \<open>The length byte\<close>



section \<open>Emission\<close>

text \<open>
  C5. In the CHECKSUM state the message is handed to the handler if and only if the byte
  received equals the accumulated checksum; the handler is given the whole message or
  nothing, and in both cases the parser is afterwards as the constructor left it. In
  every other state the handler is not called. This holds in every state of the parser,
  hence after every input stream.
\<close>

theorem emission_invariant:
  "(m_state p = CHECKSUM \<longrightarrow>
      processByte h b (p, hs) =
        Some (MspMessageParser_new, if checksum (m_msg p) = b then h (m_msg p) hs else hs))
   \<and> (m_state p \<noteq> CHECKSUM \<longrightarrow>
        (\<forall>p' hs'. processByte h b (p, hs) = Some (p', hs') \<longrightarrow> hs' = hs))"
  by (cases "m_state p")
     (auto simp add: processByte_def reset_eq_new Let_def split: if_splits)

theorem emission_invariant_witness:
  "processByte record_frame 102
      (MspMessageParser_new\<lparr>m_state := CHECKSUM, m_msg := decoded_frame OUTBOUND 102 []\<rparr>, [])
     = Some (MspMessageParser_new, [decoded_frame OUTBOUND 102 []])
   \<and> processByte record_frame 103
      (MspMessageParser_new\<lparr>m_state := CHECKSUM, m_msg := decoded_frame OUTBOUND 102 []\<rparr>, [])
     = Some (MspMessageParser_new, [])
   \<and> processByte record_frame 0x24 (MspMessageParser_new, [])
     = Some (MspMessageParser_new\<lparr>m_state := VERSION\<rparr>, [])"
proof -
  let ?p = "MspMessageParser_new\<lparr>m_state := CHECKSUM, m_msg := decoded_frame OUTBOUND 102 []\<rparr>"
  have s: "m_state ?p = CHECKSUM" by simp
  have c: "checksum (m_msg ?p) = 102" by (simp add: decoded_frame_def xor_bytes_def)
  have i: "m_state MspMessageParser_new \<noteq> CHECKSUM" by (simp add: new_fields)
  from emission_invariant [of ?p record_frame 102 "[]"]
       emission_invariant [of ?p record_frame 103 "[]"]
       emission_invariant [of MspMessageParser_new record_frame "0x24" "[]"]
       s c i
  show ?thesis by (simp add: record_frame_def processByte_IDLE new_fields)
qed

section \<open>Writes to the payload array\<close>

text \<open>
  C9. After every input stream the parser has made no write outside the payload array
  (the result is not \<open>None\<close>), the array has its capacity, the stored length is below
  the capacity, and in the PAYLOAD state the cursor, the index of the next write, is
  below the stored length and so below the capacity.
\<close>

theorem payload_write_in_bounds:
  "\<exists>p hs'. feed h bs (MspMessageParser_new, hs) = Some (p, hs')
      \<and> length (payload (m_msg p)) = MSP_MAX_PAYLOAD_SIZE
      \<and> unat (msg_size (m_msg p)) < MSP_MAX_PAYLOAD_SIZE
      \<and> (m_state p = PAYLOAD \<longrightarrow>
            unat (m_bufPtr p) < unat (msg_size (m_msg p)) \<and> unat (m_bufPtr p) < MSP_MAX_PAYLOAD_SIZE)"
proof -
  from feed_inv [OF parser_inv_new, of h bs hs]
  obtain p hs' where f: "feed h bs (MspMessageParser_new, hs) = Some (p, hs')" and i: "parser_inv p"
    by blast
  have "unat (msg_size (m_msg p)) < MSP_MAX_PAYLOAD_SIZE"
    using unat_byte_le [of "msg_size (m_msg p)"] by (simp add: MSP_MAX_PAYLOAD_SIZE_def)
  with f i show ?thesis by (auto simp add: parser_inv_def)
qed

theorem payload_write_in_bounds_witness:
  "\<exists>p hs'. feed record_frame [0x24, 0x4D, 0x3C, 2, 101, 7] (MspMessageParser_new, []) = Some (p, hs')
      \<and> m_state p = PAYLOAD
      \<and> unat (m_bufPtr p) < unat (msg_size (m_msg p)) \<and> unat (m_bufPtr p) < MSP_MAX_PAYLOAD_SIZE"
proof -
  from payload_write_in_bounds [of record_frame "[0x24, 0x4D, 0x3C, 2, 101, 7]" "[]"]
  obtain p hs' where
    f: "feed record_frame [0x24, 0x4D, 0x3C, 2, 101, 7] (MspMessageParser_new, []) = Some (p, hs')"
    and b: "m_state p = PAYLOAD \<longrightarrow>
            unat (m_bufPtr p) < unat (msg_size (m_msg p)) \<and> unat (m_bufPtr p) < MSP_MAX_PAYLOAD_SIZE"
    by blast
  have "\<exists>q fs. feed record_frame [0x24, 0x4D, 0x3C, 2, 101, 7] (MspMessageParser_new, []) = Some (q, fs)
          \<and> m_state q = PAYLOAD"
    by (simp add: parser_eval)
  with f have "m_state p = PAYLOAD" by simp
  with f b show ?thesis by blast
qed

section \<open>The checksum\<close>

lemma processByte_history:
  assumes inv: "parser_inv p" and hist: "frame_history bs p"
    and step: "processByte h b (p, hs) = Some (p', hs')"
  shows "frame_history (bs @ [b]) p'"
proof (cases "m_state p")
  case IDLE
  with step show ?thesis by (auto simp add: processByte_IDLE frame_history_def split: if_splits)
next
  case VERSION
  with step show ?thesis
    by (auto simp add: processByte_VERSION frame_history_def new_fields split: if_splits)
next
  case DIRECTION
  with step show ?thesis
    by (auto simp add: processByte_DIRECTION frame_history_def new_fields split: if_splits)
next
  case SIZE
  with step show ?thesis by (auto simp add: processByte_SIZE frame_history_def)
next
  case CMD
  with hist obtain pre where bs: "bs = pre @ [msg_size (m_msg p)]"
    and cs: "checksum (m_msg p) = msg_size (m_msg p)"
    by (auto simp add: frame_history_def)
  from CMD step have p': "p' = p\<lparr>m_msg := (m_msg p)\<lparr>checksum := checksum (m_msg p) XOR b, cmd := toMspCommand b\<rparr>,
             m_bufPtr := 0,
             m_state := (if msg_size (m_msg p) = 0 then CHECKSUM else PAYLOAD)\<rparr>"
    by (simp add: processByte_CMD)
  have "bs @ [b] = pre @ [msg_size (m_msg p), b] @ []" using bs by simp
  moreover have "checksum (m_msg p) XOR b = xor_bytes [msg_size (m_msg p), b]"
    using cs by (simp add: xor_bytes_def)
  ultimately show ?thesis
    unfolding frame_history_def p' by auto
next
  case PAYLOAD
  let ?k = "unat (m_bufPtr p)"
  let ?pl = "payload (m_msg p)"
  from inv PAYLOAD have kn: "?k < unat (msg_size (m_msg p))" and len: "length ?pl = MSP_MAX_PAYLOAD_SIZE"
    by (simp_all add: parser_inv_def)
  from kn unat_byte_le [of "msg_size (m_msg p)"] have k256: "?k < 256" by simp
  then have suc: "unat (m_bufPtr p + 1) = Suc ?k" by (rule unat_bufPtr_Suc)
  from k256 have inb: "?k < MSP_MAX_PAYLOAD_SIZE" by (simp add: MSP_MAX_PAYLOAD_SIZE_def)
  with len have klen: "?k < length ?pl" by simp
  from PAYLOAD hist obtain pre c where bs: "bs = pre @ [msg_size (m_msg p), c] @ take ?k ?pl"
    and c: "cmd (m_msg p) = toMspCommand c"
    and cs: "checksum (m_msg p) = xor_bytes (msg_size (m_msg p) # c # take ?k ?pl)"
    by (auto simp add: frame_history_def)
  from PAYLOAD inb step have p': "p' = p\<lparr>m_msg := (m_msg p)\<lparr>payload := ?pl[?k := b],
                               checksum := checksum (m_msg p) XOR b\<rparr>,
             m_bufPtr := m_bufPtr p + 1,
             m_state := (if unat (m_bufPtr p + 1) = unat (msg_size (m_msg p)) then CHECKSUM else PAYLOAD)\<rparr>"
    by (simp add: processByte_PAYLOAD)
  have tk: "take (Suc ?k) (?pl[?k := b]) = take ?k ?pl @ [b]"
    using klen by (simp add: take_Suc_conv_app_nth)
  have bs': "bs @ [b] = pre @ [msg_size (m_msg p), c] @ take (Suc ?k) (?pl[?k := b])"
    using bs tk by simp
  have cs': "checksum (m_msg p) XOR b = xor_bytes (msg_size (m_msg p) # c # take (Suc ?k) (?pl[?k := b]))"
    using cs xor_bytes_snoc [of "msg_size (m_msg p) # c # take ?k ?pl" b] tk by simp
  show ?thesis
    unfolding frame_history_def p' using bs' cs' c suc by auto
next
  case CHECKSUM
  with step show ?thesis by (auto simp add: processByte_CHECKSUM frame_history_def new_fields)
qed

lemma feed_history:
  "feed h bs (MspMessageParser_new, hs) = Some (p, hs') \<Longrightarrow> parser_inv p \<and> frame_history bs p"
proof (induction bs arbitrary: p hs' rule: rev_induct)
  case Nil
  then show ?case
    by (auto simp add: parser_inv_new frame_history_def new_fields)
next
  case (snoc b bs)
  from snoc.prems obtain p0 hs0 where f0: "feed h bs (MspMessageParser_new, hs) = Some (p0, hs0)"
    and step: "processByte h b (p0, hs0) = Some (p, hs')"
    by (auto simp add: feed_snoc split: option.splits)
  from snoc.IH [OF f0] have inv0: "parser_inv p0" and hist0: "frame_history bs p0" by simp_all
  from processByte_inv [OF inv0, of h b hs0] step have "parser_inv p" by simp
  moreover from processByte_history [OF inv0 hist0 step] have "frame_history (bs @ [b]) p" .
  ultimately show ?case by simp
qed

text \<open>
  C6. Whenever the parser emits a frame on a byte \<open>b\<close> of a stream, the bytes before
  \<open>b\<close> end with the length byte of the frame, a command byte \<open>c\<close> that maps to the
  frame's command, and the payload bytes 0 to LEN - 1 of the frame; the frame is the
  message the parser held, \<open>b\<close> equals its accumulated checksum, and that checksum is
  the exclusive-or of the length byte, the command byte and those payload bytes.
\<close>

theorem checksum_definition:
  assumes before: "feed record_frame bs (MspMessageParser_new, []) = Some (p, frames)"
    and after: "feed record_frame (bs @ [b]) (MspMessageParser_new, []) = Some (p', frames')"
    and emitted: "frames' \<noteq> frames"
  shows "\<exists>pre c pl. bs = pre @ [msg_size (m_msg p), c] @ pl
           \<and> length pl = unat (msg_size (m_msg p))
           \<and> pl = take (unat (msg_size (m_msg p))) (payload (m_msg p))
           \<and> cmd (m_msg p) = toMspCommand c
           \<and> frames' = frames @ [m_msg p]
           \<and> b = checksum (m_msg p)
           \<and> checksum (m_msg p) = xor_bytes (msg_size (m_msg p) # c # pl)"
proof -
  from after before have step: "processByte record_frame b (p, frames) = Some (p', frames')"
    by (simp add: feed_snoc)
  from feed_history [OF before] have inv: "parser_inv p" and hist: "frame_history bs p"
    by simp_all
  have st: "m_state p = CHECKSUM"
  proof (rule ccontr)
    assume "m_state p \<noteq> CHECKSUM"
    with step have "frames' = frames"
      by (cases "m_state p") (auto simp add: processByte_def Let_def split: if_splits)
    with emitted show False by simp
  qed
  with step emitted have b: "b = checksum (m_msg p)" and fr: "frames' = frames @ [m_msg p]"
    by (auto simp add: processByte_CHECKSUM record_frame_def split: if_splits)
  from st hist obtain pre c where
    bs: "bs = pre @ [msg_size (m_msg p), c] @ take (unat (m_bufPtr p)) (payload (m_msg p))"
    and c: "cmd (m_msg p) = toMspCommand c"
    and cs: "checksum (m_msg p) =
               xor_bytes (msg_size (m_msg p) # c # take (unat (m_bufPtr p)) (payload (m_msg p)))"
    and k: "unat (m_bufPtr p) = unat (msg_size (m_msg p))"
    by (auto simp add: frame_history_def)
  from inv unat_byte_le [of "msg_size (m_msg p)"]
  have "length (take (unat (msg_size (m_msg p))) (payload (m_msg p))) = unat (msg_size (m_msg p))"
    by (simp add: parser_inv_def MSP_MAX_PAYLOAD_SIZE_def)
  with bs c cs k b fr show ?thesis by auto
qed

theorem checksum_definition_witness:
  "\<exists>pre c pl. [0x24, 0x4D, 0x3E, 2, 108, 5, 9] = pre @ [2, c] @ pl
      \<and> length pl = 2
      \<and> pl = take 2 (payload (decoded_frame INBOUND 108 [5, 9]))
      \<and> cmd (decoded_frame INBOUND 108 [5, 9]) = toMspCommand c
      \<and> (98 :: 8 word) = xor_bytes (2 # c # pl)"
proof -
  let ?bs = "[0x24, 0x4D, 0x3E, 2, 108, 5, 9] :: 8 word list"
  let ?m = "decoded_frame INBOUND 108 [5, 9]"
  have "\<exists>q. feed record_frame ?bs (MspMessageParser_new, []) = Some (q, [])"
    by (simp add: parser_eval)
  then obtain q where before: "feed record_frame ?bs (MspMessageParser_new, []) = Some (q, [])"
    by blast
  have "?bs @ [98] = wire_frame INBOUND 108 [5, 9]"
    by (simp add: wire_frame_def direction_marker_def xor_bytes_def)
  then have after: "feed record_frame (?bs @ [98]) (MspMessageParser_new, []) =
                      Some (MspMessageParser_new, [?m])"
    using feed_wire_frame [where pl = "[5, 9]" and h = record_frame and d = INBOUND and c = 108 and hs = "[]"]
    by (simp add: record_frame_def)
  have emitted: "[?m] \<noteq> []" by simp
  from checksum_definition [OF before after emitted]
  obtain pre c pl where bs: "?bs = pre @ [msg_size (m_msg q), c] @ pl"
    and len: "length pl = unat (msg_size (m_msg q))"
    and pl: "pl = take (unat (msg_size (m_msg q))) (payload (m_msg q))"
    and c: "cmd (m_msg q) = toMspCommand c"
    and m: "[?m] = [] @ [m_msg q]"
    and b: "98 = checksum (m_msg q)"
    and cs: "checksum (m_msg q) = xor_bytes (msg_size (m_msg q) # c # pl)"
    by blast
  from m have mq: "m_msg q = ?m" by simp
  have sz: "msg_size ?m = 2" by (simp add: decoded_frame_def)
  from bs len pl c b cs show ?thesis
    unfolding mq sz by (intro exI [of _ pre] exI [of _ c] exI [of _ pl]) simp
qed

section \<open>Executors and dispatch\<close>

lemma execute_all_append:
  "execute_all (xs @ ys) msg st = execute_all ys msg (execute_all xs msg st)"
  by (induction xs arbitrary: st) simp_all

lemma and_one_neq_zero_iff_bit0: "(w AND 1 \<noteq> 0) \<longleftrightarrow> bit w 0" for w :: "8 word"
  by (simp add: and_one_eq bit_0 odd_iff_mod_2_eq_one)

lemmas command_ids = STATUS_def ATTITUDE_def RC_def FC_VARIANT_def UNKNOWN_def

lemma dispatcher_new_STATUS: "MspCommandDispatcher_new STATUS = Some [StatusCommandExecutor]"
  by (simp add: MspCommandDispatcher_new_def registerExecutor_def command_ids)

text \<open>
  C8. A message with command id 101 is dispatched by the dispatcher's own table to the
  STATUS executor. When the declared length is greater than 6 the armed flag becomes
  bit 0 of payload byte 6, an index inside the payload array; when the length is 6 or
  less the model is left as it was. No other field of the model changes.
\<close>

theorem status_handler_contract:
  assumes "cmd msg = STATUS" and "length (payload msg) = MSP_MAX_PAYLOAD_SIZE"
  shows "6 < length (payload msg) \<and>
         fst (dispatchMessage MspCommandDispatcher_new msg (dm, out)) =
           (if 6 < unat (msg_size msg) then dm\<lparr>armed := bit (payload msg ! 6) 0\<rparr> else dm)"
  using assms
  by (simp add: dispatchMessage_def dispatcher_new_STATUS StatusCommandExecutor_def Let_def
        and_one_neq_zero_iff_bit0 MSP_MAX_PAYLOAD_SIZE_def)

theorem status_handler_contract_witness:
  "fst (dispatchMessage MspCommandDispatcher_new (decoded_frame OUTBOUND 101 [0, 0, 0, 0, 0, 0, 3])
          (FlightDataModel_new, []))
     = FlightDataModel_new\<lparr>armed := True\<rparr>
   \<and> fst (dispatchMessage MspCommandDispatcher_new (decoded_frame OUTBOUND 101 [0, 0, 0, 0, 0, 1])
          (FlightDataModel_new\<lparr>armed := True\<rparr>, []))
     = FlightDataModel_new\<lparr>armed := True\<rparr>"
proof -
  let ?m7 = "decoded_frame OUTBOUND 101 [0, 0, 0, 0, 0, 0, 3]"
  let ?m6 = "decoded_frame OUTBOUND 101 [0, 0, 0, 0, 0, 1]"
  have c7: "cmd ?m7 = STATUS" and c6: "cmd ?m6 = STATUS"
    by (simp_all add: decoded_frame_def toMspCommand_def)
  have l7: "length (payload ?m7) = MSP_MAX_PAYLOAD_SIZE"
    and l6: "length (payload ?m6) = MSP_MAX_PAYLOAD_SIZE"
    by (simp_all add: decoded_frame_def MSP_MAX_PAYLOAD_SIZE_def)
  have s7: "unat (msg_size ?m7) = 7" and s6: "unat (msg_size ?m6) = 6"
    by (simp_all add: decoded_frame_def)
  have b7: "bit (payload ?m7 ! 6) 0"
    by (simp add: decoded_frame_def bit_0)
  from status_handler_contract [OF c7 l7, of FlightDataModel_new "[]"]
       status_handler_contract [OF c6 l6, of "FlightDataModel_new\<lparr>armed := True\<rparr>" "[]"]
       s7 s6 b7
  show ?thesis by simp
qed

text \<open>
  C7. After two executors \<open>e1\<close> and \<open>e2\<close> are registered for a command id, in this
  order, the list for that id is the earlier entries followed by \<open>e1\<close> and \<open>e2\<close>, and
  the dispatch of a message with that id runs the earlier entries, then \<open>e1\<close>, then \<open>e2\<close>
  on the model and console that \<open>e1\<close> returned.
\<close>

theorem dispatch_order:
  assumes "cmd msg = c"
  shows "registerExecutor c e2 (registerExecutor c e1 m) c =
           Some ((case m c of None \<Rightarrow> [] | Some es \<Rightarrow> es) @ [e1, e2])
         \<and> dispatchMessage (registerExecutor c e2 (registerExecutor c e1 m)) msg st =
             e2 msg (e1 msg (execute_all (case m c of None \<Rightarrow> [] | Some es \<Rightarrow> es) msg st))"
  using assms
  by (simp add: registerExecutor_def dispatchMessage_def execute_all_append)

text \<open>
  An instance with the RC chain of \<^verbatim>\<open>main\<close>: the forwarder sends the link quality that
  the console executor has just copied from the message into channel 8.
\<close>


theorem dispatch_order_witness:
  "snd (dispatchMessage
          (registerExecutor RC RcCommandAlinkForwarder
             (registerExecutor RC RcCommandConsoleExecutor MspCommandDispatcher_new))
          (decoded_frame INBOUND 105 (replicate 16 0 @ [0x34, 0x12] @ replicate 14 0))
          (FlightDataModel_new\<lparr>verbose := False\<rparr>, []))
     = [AlinkDatagram 0x1234 0x1234 0 0]"
proof -
  let ?msg = "decoded_frame INBOUND 105 (replicate 16 0 @ [0x34, 0x12] @ replicate 14 0)"
  let ?st = "(FlightDataModel_new\<lparr>verbose := False\<rparr>, []) :: FlightDataModel \<times> Output list"
  have c: "cmd ?msg = RC"
    by (simp add: decoded_frame_def toMspCommand_def command_ids)
  have n: "MspCommandDispatcher_new RC = None"
    by (simp add: MspCommandDispatcher_new_def registerExecutor_def command_ids)
  have e: "snd (RcCommandAlinkForwarder ?msg (RcCommandConsoleExecutor ?msg ?st))
             = [AlinkDatagram 0x1234 0x1234 0 0]"
    by code_simp
  from dispatch_order [OF c, of RcCommandAlinkForwarder RcCommandConsoleExecutor
         MspCommandDispatcher_new ?st] n e
  show ?thesis by simp
qed

section \<open>The handler and the objects of main\<close>

lemma main_wiring_eq: "main_wiring outPort = (MspMessageParser_new, snd (main_wiring outPort))"
  by (simp add: main_wiring_def Let_def)

lemma main_wiring_models:
  "flightModel (snd (main_wiring outPort)) = FlightDataModel_new"
  "handler_dataModel (snd (main_wiring outPort)) = FlightDataModel_new"
  "console (snd (main_wiring outPort)) = []"
  by (simp_all add: main_wiring_def Let_def MspMessageHandler_new_def FlightDataModel_new_def)

lemma main_wiring_executors:
  "dispatcher_executors (snd (main_wiring outPort)) =
     (if outPort > 0
      then registerExecutor RC RcCommandAlinkForwarder
             (registerExecutor RC RcCommandConsoleExecutor MspCommandDispatcher_new)
      else registerExecutor RC RcCommandConsoleExecutor MspCommandDispatcher_new)"
  by (simp add: main_wiring_def Let_def MspMessageHandler_new_def)

lemma main_wiring_STATUS:
  "dispatcher_executors (snd (main_wiring outPort)) STATUS = Some [StatusCommandExecutor]"
  by (simp add: main_wiring_executors MspCommandDispatcher_new_def registerExecutor_def command_ids)

lemma main_wiring_UNKNOWN:
  "dispatcher_executors (snd (main_wiring outPort)) UNKNOWN = None"
  by (simp add: main_wiring_executors MspCommandDispatcher_new_def registerExecutor_def command_ids)

lemma copyToFrameBuffer_console:
  "snd (copyToFrameBuffer data (dm, out)) =
     (if fbCursor dm + length data > FRAME_BUFFER_SIZE \<and> verbose dm
      then out @ [FlushingFrameBuffer (fbCursor dm)] else out)"
  by (simp add: copyToFrameBuffer_def flushFrameBuffer_def)

lemma copyToFrameBuffer_in_bounds:
  assumes "length data \<le> FRAME_BUFFER_SIZE" and "length (frameBuffer dm) = FRAME_BUFFER_SIZE"
  shows "fbCursor (fst (copyToFrameBuffer data (dm, out))) \<le> FRAME_BUFFER_SIZE
         \<and> length (frameBuffer (fst (copyToFrameBuffer data (dm, out)))) = FRAME_BUFFER_SIZE"
  using assms by (auto simp add: copyToFrameBuffer_def flushFrameBuffer_def)

lemma onMspMessage_fields:
  "flightModel (onMspMessage msg w) =
     fst (dispatchMessage (dispatcher_executors w) msg (flightModel w, console_after_receive msg w))"
  "console (onMspMessage msg w) =
     snd (dispatchMessage (dispatcher_executors w) msg (flightModel w, console_after_receive msg w))"
  "handler_dataModel (onMspMessage msg w) =
     fst (copyToFrameBuffer (msg_bytes msg)
            (handler_dataModel w,
             if verbose (handler_dataModel w)
             then console w @ [ReceivedMspMsg (cmd msg) (msg_size msg)] else console w))"
  "dispatcher_executors (onMspMessage msg w) = dispatcher_executors w"
  by (simp_all add: onMspMessage_def console_after_receive_def Let_def split: prod.splits)

lemma execute_all_preserves:
  "list_all preserves_frame_buffer es \<Longrightarrow>
   frameBuffer (fst (execute_all es msg st)) = frameBuffer (fst st)
   \<and> fbCursor (fst (execute_all es msg st)) = fbCursor (fst st)"
proof (induction es arbitrary: st)
  case Nil
  then show ?case by simp
next
  case (Cons e es)
  obtain dm out where st: "st = (dm, out)" by (cases st)
  from Cons.prems have e: "preserves_frame_buffer e" and es: "list_all preserves_frame_buffer es"
    by simp_all
  from e have "frameBuffer (fst (e msg (dm, out))) = frameBuffer dm"
    and "fbCursor (fst (e msg (dm, out))) = fbCursor dm"
    by (simp_all add: preserves_frame_buffer_def)
  with Cons.IH [OF es, of "e msg st"] st show ?case by simp
qed

lemma source_executors_preserve:
  "preserves_frame_buffer StatusCommandExecutor"
  "preserves_frame_buffer AttitudeCommandExecutor"
  "preserves_frame_buffer FcVariantCommandExecutor"
  "preserves_frame_buffer RcCommandConsoleExecutor"
  "preserves_frame_buffer RcCommandAlinkForwarder"
  by (simp_all add: preserves_frame_buffer_def StatusCommandExecutor_def
        AttitudeCommandExecutor_def FcVariantCommandExecutor_def RcCommandConsoleExecutor_def
        RcCommandAlinkForwarder_def Let_def)

lemma main_wiring_preserves:
  "\<forall>c es. dispatcher_executors (snd (main_wiring outPort)) c = Some es
      \<longrightarrow> list_all preserves_frame_buffer es"
  by (auto simp add: main_wiring_executors MspCommandDispatcher_new_def registerExecutor_def
        source_executors_preserve split: if_splits)

lemma feed_main_wiring:
  "feed h bs (main_wiring outPort) = feed h bs (MspMessageParser_new, snd (main_wiring outPort))"
  by (rule arg_cong [OF main_wiring_eq])

lemma main_wiring_0_RC:
  "dispatcher_executors (snd (main_wiring 0)) RC = Some [RcCommandConsoleExecutor]"
  by (simp add: main_wiring_executors MspCommandDispatcher_new_def registerExecutor_def command_ids)

lemmas dispatch_eval =
  onMspMessage_fields console_after_receive_def copyToFrameBuffer_console dispatchMessage_def
  main_wiring_models main_wiring_STATUS main_wiring_UNKNOWN StatusCommandExecutor_def
  decoded_frame_def msg_bytes_def toMspCommand_def FlightDataModel_new_def
  FRAME_BUFFER_SIZE_def MSP_MAX_PAYLOAD_SIZE_def xor_bytes_def Let_def

text \<open>
  C10. The handler's \<^verbatim>\<open>m_dataModel\<close> is a copy of the constructor's argument, and the
  dispatcher refers to the argument itself. Handling a message changes the original
  model only through the dispatch, that is through the executors registered for the
  command; \<^verbatim>\<open>copyToFrameBuffer\<close> changes the frame buffer and the cursor of the copy.
  With executors that do not touch the frame buffer (the five executors of the source
  do not, lemma \<open>source_executors_preserve\<close>, and so the table that \<^verbatim>\<open>main\<close> builds,
  lemma \<open>main_wiring_preserves\<close>), the frame buffer and the cursor of the original model
  are never modified.
\<close>

theorem handler_copy_isolated:
  assumes "\<forall>c es. dispatcher_executors w c = Some es \<longrightarrow> list_all preserves_frame_buffer es"
  shows "frameBuffer (flightModel (onMspMessage msg w)) = frameBuffer (flightModel w)
       \<and> fbCursor (flightModel (onMspMessage msg w)) = fbCursor (flightModel w)
       \<and> flightModel (onMspMessage msg w) =
           fst (dispatchMessage (dispatcher_executors w) msg (flightModel w, console_after_receive msg w))
       \<and> frameBuffer (handler_dataModel (onMspMessage msg w)) =
           frameBuffer (fst (copyToFrameBuffer (msg_bytes msg) (handler_dataModel w, console w)))
       \<and> fbCursor (handler_dataModel (onMspMessage msg w)) =
           fbCursor (fst (copyToFrameBuffer (msg_bytes msg) (handler_dataModel w, console w)))
       \<and> handler_dataModel (MspMessageHandler_new model out) = model
       \<and> flightModel (MspMessageHandler_new model out) = model"
proof -
  have "frameBuffer (fst (dispatchMessage (dispatcher_executors w) msg (dm, out'))) = frameBuffer dm
      \<and> fbCursor (fst (dispatchMessage (dispatcher_executors w) msg (dm, out'))) = fbCursor dm"
    for dm out'
  proof (cases "dispatcher_executors w (cmd msg)")
    case None
    then show ?thesis by (simp add: dispatchMessage_def)
  next
    case (Some es)
    with assms have "list_all preserves_frame_buffer es" by blast
    from execute_all_preserves [OF this, of msg "(dm, out')"] Some show ?thesis
      by (simp add: dispatchMessage_def)
  qed
  then show ?thesis
    by (simp add: onMspMessage_fields MspMessageHandler_new_def copyToFrameBuffer_def
          flushFrameBuffer_def)
qed

theorem handler_copy_isolated_witness:
  "frameBuffer (flightModel (onMspMessage (decoded_frame OUTBOUND 101 [0, 0, 0, 0, 0, 0, 1]) (snd (main_wiring 1))))
     = frameBuffer (flightModel (snd (main_wiring 1)))
   \<and> fbCursor (flightModel (onMspMessage (decoded_frame OUTBOUND 101 [0, 0, 0, 0, 0, 0, 1]) (snd (main_wiring 1))))
     = 0
   \<and> fbCursor (handler_dataModel (onMspMessage (decoded_frame OUTBOUND 101 [0, 0, 0, 0, 0, 0, 1]) (snd (main_wiring 1))))
     = 260
   \<and> armed (flightModel (onMspMessage (decoded_frame OUTBOUND 101 [0, 0, 0, 0, 0, 0, 1]) (snd (main_wiring 1))))
   \<and> \<not> armed (handler_dataModel (onMspMessage (decoded_frame OUTBOUND 101 [0, 0, 0, 0, 0, 0, 1]) (snd (main_wiring 1))))"
proof -
  let ?m = "decoded_frame OUTBOUND 101 [0, 0, 0, 0, 0, 0, 1]"
  let ?w = "snd (main_wiring 1)"
  note iso = handler_copy_isolated [OF main_wiring_preserves [of 1], of ?m FlightDataModel_new "[]"]
  from iso have fb: "frameBuffer (flightModel (onMspMessage ?m ?w)) = frameBuffer (flightModel ?w)"
    by blast
  from iso have cur: "fbCursor (flightModel (onMspMessage ?m ?w)) = fbCursor (flightModel ?w)"
    by blast
  from iso have cc: "fbCursor (handler_dataModel (onMspMessage ?m ?w)) =
           fbCursor (fst (copyToFrameBuffer (msg_bytes ?m) (handler_dataModel ?w, console ?w)))"
    by blast
  have c0: "fbCursor (flightModel ?w) = 0"
    by (simp add: main_wiring_models FlightDataModel_new_def)
  have c260: "fbCursor (fst (copyToFrameBuffer (msg_bytes ?m) (handler_dataModel ?w, console ?w))) = 260"
    by (simp add: main_wiring_models copyToFrameBuffer_def flushFrameBuffer_def msg_bytes_def
          decoded_frame_def FlightDataModel_new_def FRAME_BUFFER_SIZE_def MSP_MAX_PAYLOAD_SIZE_def)
  have a: "armed (flightModel (onMspMessage ?m ?w))"
    by (simp add: dispatch_eval)
  have na: "\<not> armed (handler_dataModel (onMspMessage ?m ?w))"
    by (simp add: onMspMessage_fields main_wiring_models copyToFrameBuffer_def
          flushFrameBuffer_def FlightDataModel_new_def)
  from fb cur cc c0 c260 a na show ?thesis by simp
qed

section \<open>The STATUS scenario\<close>

text \<open>
  C4, as the code has it. The command id 101 is the byte 0x65, and a frame of length 7
  carries seven payload bytes. Feeding \<^verbatim>\<open>24 4D 3C 07 65 00 00 00 00 00 00 01 63\<close> to the
  parser wired as in \<^verbatim>\<open>main\<close> (with or without the forwarder) sets \<^verbatim>\<open>armed\<close> of the
  shared model through the STATUS executor and changes nothing else in it; the console
  holds the line of the message handler and the line of the STATUS executor, and no
  other executor writes anything.
\<close>

theorem status_scenario:
  "map_option (flightModel \<circ> snd)
     (feed onMspMessage [0x24, 0x4D, 0x3C, 0x07, 0x65, 0x00, 0x00, 0x00, 0x00, 0x00, 0x00, 0x01, 0x63]
        (main_wiring outPort))
     = Some (FlightDataModel_new\<lparr>armed := True\<rparr>)
   \<and> map_option (console \<circ> snd)
     (feed onMspMessage [0x24, 0x4D, 0x3C, 0x07, 0x65, 0x00, 0x00, 0x00, 0x00, 0x00, 0x00, 0x01, 0x63]
        (main_wiring outPort))
     = Some [ReceivedMspMsg STATUS 7, StatusArmed True]"
proof -
  let ?m = "decoded_frame OUTBOUND 0x65 [0, 0, 0, 0, 0, 0, 1]"
  let ?w = "snd (main_wiring outPort)"
  have bytes: "[0x24, 0x4D, 0x3C, 0x07, 0x65, 0x00, 0x00, 0x00, 0x00, 0x00, 0x00, 0x01, 0x63]
                 = wire_frame OUTBOUND 0x65 [0, 0, 0, 0, 0, 0, 1]"
    by (simp add: wire_frame_def direction_marker_def xor_bytes_def)
  have f: "feed onMspMessage (wire_frame OUTBOUND 0x65 [0, 0, 0, 0, 0, 0, 1]) (main_wiring outPort)
             = Some (MspMessageParser_new, onMspMessage ?m ?w)"
    unfolding feed_main_wiring by (rule feed_wire_frame) simp
  have m: "flightModel (onMspMessage ?m ?w) = FlightDataModel_new\<lparr>armed := True\<rparr>"
    by (simp add: dispatch_eval)
  have c: "console (onMspMessage ?m ?w) = [ReceivedMspMsg STATUS 7, StatusArmed True]"
    by (simp add: dispatch_eval)
  show ?thesis unfolding bytes f using m c by simp
qed

text \<open>
  C4 as stated fails twice. The twelve bytes \<^verbatim>\<open>24 4D 3C 07 69 00 00 00 00 00 01 6F\<close>
  hold six bytes after the command, so the parser takes the checksum byte as the seventh
  payload byte and waits in the CHECKSUM state: nothing is emitted, \<^verbatim>\<open>armed\<close> is false and
  the console is empty. With a seventh payload byte the frame is emitted, but 0x69 is
  105, the command RC: the RC console executor gets it, finds it shorter than 32 bytes
  and does nothing; \<^verbatim>\<open>armed\<close> stays false.
\<close>

theorem status_scenario_counterexample:
  "map_option (m_state \<circ> fst)
     (feed onMspMessage [0x24, 0x4D, 0x3C, 0x07, 0x69, 0x00, 0x00, 0x00, 0x00, 0x00, 0x01, 0x6F]
        (main_wiring 0))
     = Some CHECKSUM
   \<and> map_option (armed \<circ> flightModel \<circ> snd)
     (feed onMspMessage [0x24, 0x4D, 0x3C, 0x07, 0x69, 0x00, 0x00, 0x00, 0x00, 0x00, 0x01, 0x6F]
        (main_wiring 0))
     = Some False
   \<and> map_option (console \<circ> snd)
     (feed onMspMessage [0x24, 0x4D, 0x3C, 0x07, 0x69, 0x00, 0x00, 0x00, 0x00, 0x00, 0x01, 0x6F]
        (main_wiring 0))
     = Some []
   \<and> map_option (armed \<circ> flightModel \<circ> snd)
     (feed onMspMessage [0x24, 0x4D, 0x3C, 0x07, 0x69, 0x00, 0x00, 0x00, 0x00, 0x00, 0x00, 0x01, 0x6F]
        (main_wiring 0))
     = Some False
   \<and> map_option (console \<circ> snd)
     (feed onMspMessage [0x24, 0x4D, 0x3C, 0x07, 0x69, 0x00, 0x00, 0x00, 0x00, 0x00, 0x00, 0x01, 0x6F]
        (main_wiring 0))
     = Some [ReceivedMspMsg RC 7]"
proof -
  let ?w = "snd (main_wiring 0)"
  let ?short = "[0x24, 0x4D, 0x3C, 0x07, 0x69, 0x00, 0x00, 0x00, 0x00, 0x00, 0x01, 0x6F] :: 8 word list"
  let ?long = "[0x24, 0x4D, 0x3C, 0x07, 0x69, 0x00, 0x00, 0x00, 0x00, 0x00, 0x00, 0x01, 0x6F] :: 8 word list"
  let ?m = "decoded_frame OUTBOUND 0x69 [0, 0, 0, 0, 0, 0, 1]"
  have "\<exists>p. feed onMspMessage ?short (MspMessageParser_new, ?w) = Some (p, ?w) \<and> m_state p = CHECKSUM"
    by (simp add: parser_eval)
  then obtain p where s: "feed onMspMessage ?short (main_wiring 0) = Some (p, ?w)"
    and st: "m_state p = CHECKSUM"
    unfolding feed_main_wiring by blast
  have w0: "armed (flightModel ?w) = False" "console ?w = []"
    by (simp_all add: main_wiring_models FlightDataModel_new_def)
  have bytes: "?long = wire_frame OUTBOUND 0x69 [0, 0, 0, 0, 0, 0, 1]"
    by (simp add: wire_frame_def direction_marker_def xor_bytes_def)
  have f: "feed onMspMessage (wire_frame OUTBOUND 0x69 [0, 0, 0, 0, 0, 0, 1]) (main_wiring 0)
             = Some (MspMessageParser_new, onMspMessage ?m ?w)"
    unfolding feed_main_wiring by (rule feed_wire_frame) simp
  have a: "armed (flightModel (onMspMessage ?m ?w)) = False"
    by (simp add: dispatch_eval main_wiring_0_RC RcCommandConsoleExecutor_def)
  have c: "console (onMspMessage ?m ?w) = [ReceivedMspMsg RC 7]"
    by (simp add: dispatch_eval main_wiring_0_RC RcCommandConsoleExecutor_def)
  show ?thesis unfolding s bytes f using st w0 a c by simp
qed

section \<open>Unknown commands\<close>

text \<open>
  C2, as the code has it. A frame whose command byte is none of 101, 102, 105, 108 is
  emitted with the command \<open>UNKNOWN\<close> (255) whatever the byte was, and its dispatch runs
  the executors registered under \<open>UNKNOWN\<close>, in order; when there are none the frame is
  unhandled.
\<close>

theorem unknown_command_routing:
  assumes "c \<noteq> 101" and "c \<noteq> 108" and "c \<noteq> 105" and "c \<noteq> 102" and "length pl \<le> 255"
  shows "feed h (wire_frame d c pl) (MspMessageParser_new, hs)
           = Some (MspMessageParser_new, h (decoded_frame d c pl) hs)
       \<and> cmd (decoded_frame d c pl) = UNKNOWN
       \<and> dispatchMessage m (decoded_frame d c pl) st =
           (case m UNKNOWN of
              Some es \<Rightarrow> execute_all es (decoded_frame d c pl) st
            | None \<Rightarrow> if verbose (fst st) then (fst st, snd st @ [UnhandledCommand UNKNOWN]) else st)"
proof -
  from assms have u: "cmd (decoded_frame d c pl) = UNKNOWN"
    by (simp add: decoded_frame_def toMspCommand_def)
  have "dispatchMessage m (decoded_frame d c pl) st =
           (case m UNKNOWN of
              Some es \<Rightarrow> execute_all es (decoded_frame d c pl) st
            | None \<Rightarrow> if verbose (fst st) then (fst st, snd st @ [UnhandledCommand UNKNOWN]) else st)"
    unfolding dispatchMessage_def u by (cases st) (simp split: option.splits)
  with u feed_wire_frame [OF assms(5)] show ?thesis by simp
qed

theorem unknown_command_routing_witness:
  "feed record_frame (wire_frame OUTBOUND 1 []) (MspMessageParser_new, [])
     = Some (MspMessageParser_new, [decoded_frame OUTBOUND 1 []])
   \<and> cmd (decoded_frame OUTBOUND 1 []) = UNKNOWN
   \<and> dispatchMessage (registerExecutor UNKNOWN StatusCommandExecutor Map.empty)
        (decoded_frame OUTBOUND 1 []) (FlightDataModel_new, [])
     = (FlightDataModel_new, [StatusArmed False])"
proof -
  have n: "(1 :: 8 word) \<noteq> 101" "(1 :: 8 word) \<noteq> 108" "(1 :: 8 word) \<noteq> 105" "(1 :: 8 word) \<noteq> 102"
    by simp_all
  have l: "length ([] :: 8 word list) \<le> 255" by simp
  have e: "StatusCommandExecutor (decoded_frame OUTBOUND 1 []) (FlightDataModel_new, [])
             = (FlightDataModel_new, [StatusArmed False])"
    by (simp add: StatusCommandExecutor_def decoded_frame_def FlightDataModel_new_def Let_def)
  from unknown_command_routing [OF n l, of record_frame OUTBOUND "[]"
         "registerExecutor UNKNOWN StatusCommandExecutor Map.empty" "(FlightDataModel_new, [])"] e
  show ?thesis by (simp add: registerExecutor_def record_frame_def)
qed

text \<open>
  C2 as stated fails: the command field of the message does not keep the numeric id, and
  an executor registered under the numeric id is not run. With the STATUS executor also
  registered under the id 1, the frame \<^verbatim>\<open>24 4D 3C 00 01 01\<close> (command 1) is reported with
  command 255 and is unhandled; the frames with commands 1 and 2 both carry the command
  255.
\<close>

theorem unknown_command_counterexample:
  "map_option (console \<circ> snd)
     (feed onMspMessage [0x24, 0x4D, 0x3C, 0x00, 0x01, 0x01]
        (MspMessageParser_new,
         (snd (main_wiring 0))\<lparr>dispatcher_executors :=
            registerExecutor 1 StatusCommandExecutor (dispatcher_executors (snd (main_wiring 0)))\<rparr>))
     = Some [ReceivedMspMsg 255 0, UnhandledCommand 255]
   \<and> map_option (map cmd \<circ> snd)
       (feed record_frame [0x24, 0x4D, 0x3C, 0x00, 0x01, 0x01] (MspMessageParser_new, []))
     = Some [255]
   \<and> map_option (map cmd \<circ> snd)
       (feed record_frame [0x24, 0x4D, 0x3C, 0x00, 0x02, 0x02] (MspMessageParser_new, []))
     = Some [255]"
proof -
  let ?w = "(snd (main_wiring 0))\<lparr>dispatcher_executors :=
            registerExecutor 1 StatusCommandExecutor (dispatcher_executors (snd (main_wiring 0)))\<rparr>"
  have b1: "[0x24, 0x4D, 0x3C, 0x00, 0x01, 0x01] = wire_frame OUTBOUND 1 []"
    and b2: "[0x24, 0x4D, 0x3C, 0x00, 0x02, 0x02] = wire_frame OUTBOUND 2 []"
    by (simp_all add: wire_frame_def direction_marker_def xor_bytes_def)
  have f: "feed onMspMessage (wire_frame OUTBOUND 1 []) (MspMessageParser_new, ?w)
             = Some (MspMessageParser_new, onMspMessage (decoded_frame OUTBOUND 1 []) ?w)"
    by (rule feed_wire_frame) simp
  have r1: "feed record_frame (wire_frame OUTBOUND 1 []) (MspMessageParser_new, [])
             = Some (MspMessageParser_new, record_frame (decoded_frame OUTBOUND 1 []) [])"
    by (rule feed_wire_frame) simp
  have r2: "feed record_frame (wire_frame OUTBOUND 2 []) (MspMessageParser_new, [])
             = Some (MspMessageParser_new, record_frame (decoded_frame OUTBOUND 2 []) [])"
    by (rule feed_wire_frame) simp
  have c: "console (onMspMessage (decoded_frame OUTBOUND 1 []) ?w)
             = [ReceivedMspMsg 255 0, UnhandledCommand 255]"
    by (simp add: onMspMessage_fields console_after_receive_def copyToFrameBuffer_console
          dispatchMessage_def main_wiring_models main_wiring_executors registerExecutor_def
          MspCommandDispatcher_new_def decoded_frame_def msg_bytes_def toMspCommand_def command_ids
          FlightDataModel_new_def FRAME_BUFFER_SIZE_def MSP_MAX_PAYLOAD_SIZE_def)
  have u: "cmd (decoded_frame OUTBOUND 1 []) = 255" "cmd (decoded_frame OUTBOUND 2 []) = 255"
    by (simp_all add: decoded_frame_def toMspCommand_def command_ids)
  show ?thesis unfolding b1 b2 f r1 r2 using c u by (simp add: record_frame_def)
qed

end
